theory Spec2Isabelle
  imports Main "HOL-Library.Sublist"
begin

section \<open>Strings as the source uses them\<close>

text \<open>
  The listener of \<^verbatim>\<open>terraform_parser.py\<close> reads token texts with \<^verbatim>\<open>getText()\<close> and
  treats them with three string methods of Python: \<^verbatim>\<open>strip('"')\<close>, \<^verbatim>\<open>split(".")\<close> and
  \<^verbatim>\<open>startswith("var.")\<close>. A string is a list of characters.
\<close>

definition dquote :: char where
  "dquote = CHR 0x22"

text \<open>\<^verbatim>\<open>s.strip('"')\<close>: every leading and every trailing double quote is removed.\<close>

definition str_strip :: "char \<Rightarrow> string \<Rightarrow> string" where
  "str_strip q s = rev (dropWhile (\<lambda>c. c = q) (rev (dropWhile (\<lambda>c. c = q) s)))"

definition strip_quotes :: "string \<Rightarrow> string" where
  "strip_quotes s = str_strip dquote s"

text \<open>\<^verbatim>\<open>s.split(".")\<close>: one piece more than there are separators, empty pieces kept.\<close>

fun str_split :: "char \<Rightarrow> string \<Rightarrow> string list" where
  "str_split d [] = [[]]"
| "str_split d (c # cs) =
     (if c = d then [] # str_split d cs
      else (case str_split d cs of
              [] \<Rightarrow> [[c]]
            | w # ws \<Rightarrow> (c # w) # ws))"

definition str_startswith :: "string \<Rightarrow> string \<Rightarrow> bool" where
  "str_startswith s p = prefix p s"

section \<open>The parse tree the listener walks\<close>

text \<open>
  Modelled from the spec: the grammar and the generated parser (\<^verbatim>\<open>TerraformSubsetParser\<close>)
  are not among the sources. The spec has three block kinds, \<^verbatim>\<open>variable "<name>" { ... }\<close>,
  \<^verbatim>\<open>provider "<name>" { ... }\<close> and \<^verbatim>\<open>resource "<type>" "<name>" { ... }\<close>, each visited
  exactly once, in document order. The listener reads of a block the text of its
  \<^verbatim>\<open>STRING\<close> tokens (quotes included) and, of every key/value entry of its body, the text of
  the \<^verbatim>\<open>IDENTIFIER\<close> and the text of the \<^verbatim>\<open>expr\<close>.
\<close>

type_synonym keyValue = "string \<times> string"

datatype block =
    Variable string "keyValue list"
  | Provider string "keyValue list"
  | Resource string string "keyValue list"

section \<open>TerraformApplyListener\<close>

datatype error =
    UnsupportedProvider
  | NoTokenSpecified
  | UndefinedVariable string
  | MissingResource
  | IndexError
  | KeyError string
  | InputError
  | RemoteApiError
  | RecordLoadError

record listener =
  variables :: "string \<rightharpoonup> string"
  provider_token_expr :: "string option"
  droplet_config :: "string \<rightharpoonup> string"
  droplet_id :: "int option"
  droplet_ip :: "string option"

definition init_listener :: listener where
  "init_listener =
     \<lparr>variables = Map.empty, provider_token_expr = None, droplet_config = Map.empty,
      droplet_id = None, droplet_ip = None\<rparr>"

definition variable_step :: "string \<Rightarrow> listener \<Rightarrow> keyValue \<Rightarrow> listener" where
  "variable_step var_name st kv =
     (if fst kv = ''default''
      then st\<lparr>variables := (variables st)(var_name \<mapsto> strip_quotes (snd kv))\<rparr>
      else st)"

definition enterVariable :: "string \<Rightarrow> keyValue list \<Rightarrow> listener \<Rightarrow> listener" where
  "enterVariable raw_name kvs st = foldl (variable_step (strip_quotes raw_name)) st kvs"

definition provider_step :: "listener \<Rightarrow> keyValue \<Rightarrow> listener" where
  "provider_step st kv =
     (if fst kv = ''token'' then st\<lparr>provider_token_expr := Some (snd kv)\<rparr> else st)"

definition enterProvider :: "string \<Rightarrow> keyValue list \<Rightarrow> listener \<Rightarrow> error + listener" where
  "enterProvider raw_name kvs st =
     (if strip_quotes raw_name \<noteq> ''digitalocean'' then Inl UnsupportedProvider
      else Inr (foldl provider_step st kvs))"

definition resource_step :: "listener \<Rightarrow> keyValue \<Rightarrow> listener" where
  "resource_step st kv =
     st\<lparr>droplet_config := (droplet_config st)(fst kv \<mapsto> strip_quotes (snd kv))\<rparr>"

definition enterResource :: "string \<Rightarrow> string \<Rightarrow> keyValue list \<Rightarrow> listener \<Rightarrow> listener" where
  "enterResource raw_type raw_name kvs st =
     (if strip_quotes raw_type \<noteq> ''digitalocean_droplet'' then st
      else foldl resource_step st kvs)"

fun enter :: "block \<Rightarrow> listener \<Rightarrow> error + listener" where
  "enter (Variable n kvs) st = Inr (enterVariable n kvs st)"
| "enter (Provider n kvs) st = enterProvider n kvs st"
| "enter (Resource t n kvs) st = Inr (enterResource t n kvs st)"

text \<open>The walk stops at the first block that raises.\<close>

fun walk :: "block list \<Rightarrow> listener \<Rightarrow> error + listener" where
  "walk [] st = Inr st"
| "walk (b # bs) st = (case enter b st of Inl e \<Rightarrow> Inl e | Inr st' \<Rightarrow> walk bs st')"

text \<open>
  \<^verbatim>\<open>resolve_token\<close>. \<^verbatim>\<open>not self.provider_token_expr\<close> holds for \<^verbatim>\<open>None\<close> and for the empty
  text. \<^verbatim>\<open>split(".")[1]\<close> raises an index error on a list with fewer than two pieces.
\<close>

definition resolve_token :: "listener \<Rightarrow> error + string" where
  "resolve_token st =
     (case provider_token_expr st of
        None \<Rightarrow> Inl NoTokenSpecified
      | Some e \<Rightarrow>
          if e = [] then Inl NoTokenSpecified
          else if str_startswith e ''var.'' then
            (case str_split CHR ''.'' e of
               _ # var_name # _ \<Rightarrow>
                 (case variables st var_name of
                    Some v \<Rightarrow> Inr v
                  | None \<Rightarrow> Inl (UndefinedVariable var_name))
             | _ \<Rightarrow> Inl IndexError)
          else Inr (strip_quotes e))"

section \<open>The world a run acts on\<close>

text \<open>
  A run talks to the remote API, to the working directory and to the \<^verbatim>\<open>terraform\<close>
  subprocess. What these answer is an input of the model; what the run does to them is
  recorded in the run state: the lines printed, the API requests issued (in order), the
  working directory, and the seconds slept.
\<close>

datatype action = Apply | Destroy | Plan

record droplet_info =
  info_id :: int
  info_ip :: string
  info_name :: string
  info_region :: string
  info_size :: string
  info_image :: string
  info_created_at :: string
  info_tags :: "string list"

text \<open>
  A file of the working directory holds the resource record (what \<^verbatim>\<open>json.dump\<close> writes of
  \<^verbatim>\<open>droplet_info\<close> and \<^verbatim>\<open>json.load\<close> reads back), the state snapshot derived from it, or
  anything else (a partial write, a document without an \<^verbatim>\<open>id\<close>).
\<close>

datatype document = RecordDoc droplet_info | SnapshotDoc droplet_info | OtherDoc

datatype api_call =
    ApiCreate string string string string string
  | ApiPoll string int
  | ApiDelete string int

text \<open>
  The answer to the create request: the id of \<^verbatim>\<open>response.json()["droplet"]["id"]\<close>, or a
  failure (the request raises, \<^verbatim>\<open>raise_for_status\<close> raises, the body lacks the keys).
\<close>

datatype create_response = CreateFails | CreateOk int

text \<open>
  A network interface of a poll answer is a JSON object with text values. A poll answer is
  the list \<^verbatim>\<open>resp.json()["droplet"]["networks"]["v4"]\<close>, or a failure to get that far.
\<close>

type_synonym interface = "string \<rightharpoonup> string"

datatype poll_response = PollFails | PollOk "interface list"

datatype delete_response = DeleteFails | DeleteStatus nat

datatype write_result = WriteOk | OpenFails | DumpFails

datatype proc_result = ProcRaises | ProcExit int string string

record world =
  files :: "string \<rightharpoonup> document"
  create_response :: create_response
  poll_response :: "nat \<Rightarrow> poll_response"
  delete_response :: delete_response
  write_result :: "string \<Rightarrow> write_result"
  proc_result :: "string \<Rightarrow> proc_result"
  clock :: string

datatype message =
    MsgCreating
  | MsgCreated int
  | MsgWaiting
  | MsgAvailable string
  | MsgDropletId int
  | MsgInfoSaved string
  | MsgInfoSaveFailed
  | MsgStatefileSaved string
  | MsgStatefileFailed
  | MsgEcosystem
  | MsgRunning string
  | MsgCompleted string
  | MsgStdout string
  | MsgFailed string
  | MsgStderr string
  | MsgRunError string
  | MsgDeleting int
  | MsgDeleted int
  | MsgDeleteFailed int nat
  | MsgCleaned string
  | MsgCannotDestroy
  | MsgPlanMode
  | MsgWouldCreate "string \<rightharpoonup> string"
  | MsgError error

record run =
  printed :: "message list"
  api_calls :: "api_call list"
  disk :: "string \<rightharpoonup> document"
  slept :: nat

definition say :: "message list \<Rightarrow> run \<Rightarrow> run" where
  "say ms r = r\<lparr>printed := printed r @ ms\<rparr>"

definition request :: "api_call \<Rightarrow> run \<Rightarrow> run" where
  "request c r = r\<lparr>api_calls := api_calls r @ [c]\<rparr>"

definition sleep :: "nat \<Rightarrow> run \<Rightarrow> run" where
  "sleep n r = r\<lparr>slept := slept r + n\<rparr>"

section \<open>create\_droplet and its polling loop\<close>

text \<open>\<^verbatim>\<open>config[k]\<close> raises a key error on a missing key.\<close>

definition config_get :: "(string \<rightharpoonup> string) \<Rightarrow> string \<Rightarrow> error + string" where
  "config_get config k = (case config k of None \<Rightarrow> Inl (KeyError k) | Some v \<Rightarrow> Inr v)"

text \<open>
  \<^verbatim>\<open>[n["ip_address"] for n in networks if n["type"] == "public"]\<close>: the interfaces are read
  in order, the condition first, and the first missing key raises.
\<close>

fun public_ips :: "interface list \<Rightarrow> error + string list" where
  "public_ips [] = Inr []"
| "public_ips (n # ns) =
     (case n ''type'' of
        None \<Rightarrow> Inl (KeyError ''type'')
      | Some t \<Rightarrow>
          if t = ''public'' then
            (case n ''ip_address'' of
               None \<Rightarrow> Inl (KeyError ''ip_address'')
             | Some ip \<Rightarrow>
                 (case public_ips ns of Inl e \<Rightarrow> Inl e | Inr ips \<Rightarrow> Inr (ip # ips)))
          else public_ips ns)"

text \<open>
  The \<^verbatim>\<open>while True\<close> loop. Its \<open>i\<close>-th turn issues the poll request and reads the world's
  \<open>i\<close>-th answer; a turn that finds no public address sleeps five seconds and repeats. A
  loop that never leaves has the value \<open>None\<close>.
\<close>

partial_function (option) poll_loop ::
  "string \<Rightarrow> int \<Rightarrow> (nat \<Rightarrow> poll_response) \<Rightarrow> nat \<Rightarrow> run \<Rightarrow> ((error + string) \<times> run) option" where
  "poll_loop token did polls i r =
     (case polls i of
        PollFails \<Rightarrow> Some (Inl RemoteApiError, request (ApiPoll token did) r)
      | PollOk networks \<Rightarrow>
          (case public_ips networks of
             Inl e \<Rightarrow> Some (Inl e, request (ApiPoll token did) r)
           | Inr [] \<Rightarrow> poll_loop token did polls (Suc i) (sleep 5 (request (ApiPoll token did) r))
           | Inr (ip # _) \<Rightarrow> Some (Inr ip, request (ApiPoll token did) r)))"

text \<open>
  Both \<^verbatim>\<open>create_droplet\<close> (for the payload) and \<^verbatim>\<open>main\<close> (for the record) read
  \<^verbatim>\<open>config["name"]\<close>, \<^verbatim>\<open>config["region"]\<close>, \<^verbatim>\<open>config["size"]\<close> and \<^verbatim>\<open>config["image"]\<close>,
  in this order.
\<close>

definition read_attributes ::
  "(string \<rightharpoonup> string) \<Rightarrow> error + string \<times> string \<times> string \<times> string" where
  "read_attributes config =
     (case config_get config ''name'' of
        Inl e \<Rightarrow> Inl e
      | Inr a \<Rightarrow>
          (case config_get config ''region'' of
             Inl e \<Rightarrow> Inl e
           | Inr b \<Rightarrow>
               (case config_get config ''size'' of
                  Inl e \<Rightarrow> Inl e
                | Inr c \<Rightarrow>
                    (case config_get config ''image'' of
                       Inl e \<Rightarrow> Inl e
                     | Inr d \<Rightarrow> Inr (a, b, c, d)))))"

definition create_droplet ::
  "string \<Rightarrow> (string \<rightharpoonup> string) \<Rightarrow> world \<Rightarrow> run \<Rightarrow> ((error + int \<times> string) \<times> run) option" where
  "create_droplet api_token config w r =
     (case read_attributes config of
        Inl e \<Rightarrow> Some (Inl e, r)
      | Inr (a, b, c, d) \<Rightarrow>
          (let r1 = request (ApiCreate api_token a b c d) (say [MsgCreating] r) in
           (case create_response w of
              CreateFails \<Rightarrow> Some (Inl RemoteApiError, r1)
            | CreateOk did \<Rightarrow>
                (case poll_loop api_token did (poll_response w) 0
                        (say [MsgCreated did, MsgWaiting] r1) of
                   None \<Rightarrow> None
                 | Some (Inl e, r2) \<Rightarrow> Some (Inl e, r2)
                 | Some (Inr ip, r2) \<Rightarrow> Some (Inr (did, ip), r2)))))"

section \<open>delete\_droplet\_api, the two writers and the subprocess\<close>

definition delete_droplet_api :: "string \<Rightarrow> int \<Rightarrow> world \<Rightarrow> run \<Rightarrow> (error + bool) \<times> run" where
  "delete_droplet_api api_token did w r =
     (let r1 = request (ApiDelete api_token did) (say [MsgDeleting did] r) in
      case delete_response w of
        DeleteFails \<Rightarrow> (Inl RemoteApiError, r1)
      | DeleteStatus code \<Rightarrow>
          if code = 204 then (Inr True, say [MsgDeleted did] r1)
          else (Inr False, say [MsgDeleteFailed did code] r1))"

text \<open>
  Both writers catch every exception and return a flag. \<^verbatim>\<open>open(filename, 'w')\<close> truncates
  the file before \<^verbatim>\<open>json.dump\<close> runs, so a failing dump leaves a document that is no record.
\<close>

definition save_droplet_info_json :: "droplet_info \<Rightarrow> string \<Rightarrow> world \<Rightarrow> run \<Rightarrow> bool \<times> run" where
  "save_droplet_info_json info filename w r =
     (case write_result w filename of
        WriteOk \<Rightarrow>
          (True, say [MsgInfoSaved filename] (r\<lparr>disk := (disk r)(filename \<mapsto> RecordDoc info)\<rparr>))
      | OpenFails \<Rightarrow> (False, say [MsgInfoSaveFailed] r)
      | DumpFails \<Rightarrow> (False, say [MsgInfoSaveFailed] (r\<lparr>disk := (disk r)(filename \<mapsto> OtherDoc)\<rparr>)))"

definition save_statefile :: "droplet_info \<Rightarrow> string \<Rightarrow> world \<Rightarrow> run \<Rightarrow> bool \<times> run" where
  "save_statefile info filename w r =
     (case write_result w filename of
        WriteOk \<Rightarrow>
          (True, say [MsgStatefileSaved filename]
                   (r\<lparr>disk := (disk r)(filename \<mapsto> SnapshotDoc info)\<rparr>))
      | OpenFails \<Rightarrow> (False, say [MsgStatefileFailed] r)
      | DumpFails \<Rightarrow> (False, say [MsgStatefileFailed] (r\<lparr>disk := (disk r)(filename \<mapsto> OtherDoc)\<rparr>)))"

text \<open>
  \<^verbatim>\<open>run_terraform_commands\<close> runs \<^verbatim>\<open>terraform init\<close> and \<^verbatim>\<open>terraform plan\<close>, stops at
  the first that fails, and never raises. The subprocess is taken not to touch the two files
  of the working directory that the run itself reads and writes.
\<close>

fun run_commands :: "world \<Rightarrow> string list \<Rightarrow> run \<Rightarrow> bool \<times> run" where
  "run_commands w [] r = (True, r)"
| "run_commands w (cmd # cmds) r =
     (let r1 = say [MsgRunning cmd] r in
      case proc_result w cmd of
        ProcRaises \<Rightarrow> (False, say [MsgRunError cmd] r1)
      | ProcExit returncode out err \<Rightarrow>
          if returncode = 0 then
            run_commands w cmds
              (say (if out \<noteq> [] then [MsgStdout out] else []) (say [MsgCompleted cmd] r1))
          else (False, say [MsgFailed cmd, MsgStderr err] r1))"

definition run_terraform_commands :: "world \<Rightarrow> run \<Rightarrow> bool \<times> run" where
  "run_terraform_commands w r = run_commands w [''init'', ''plan''] r"

section \<open>main\<close>

text \<open>
  The three branches of \<^verbatim>\<open>main\<close> on \<^verbatim>\<open>args.action\<close>, each from the resolved token and the
  listener. The result is the exception that left the branch, if any, and the run state.
  (\<^verbatim>\<open>main\<close> also stores the droplet's id and address in the listener, which nothing reads
  afterwards.)
\<close>

definition main_apply :: "string \<Rightarrow> listener \<Rightarrow> world \<Rightarrow> run \<Rightarrow> (error option \<times> run) option" where
  "main_apply token st w r =
     (case create_droplet token (droplet_config st) w r of
        None \<Rightarrow> None
      | Some (Inl e, r1) \<Rightarrow> Some (Some e, r1)
      | Some (Inr (did, ip), r1) \<Rightarrow>
          (let r2 = say [MsgAvailable ip, MsgDropletId did] r1 in
           (case read_attributes (droplet_config st) of
              Inl e \<Rightarrow> Some (Some e, r2)
            | Inr (a, b, c, d) \<Rightarrow>
                (let info = \<lparr>info_id = did, info_ip = ip, info_name = a, info_region = b,
                             info_size = c, info_image = d, info_created_at = clock w,
                             info_tags = []\<rparr>;
                     r3 = snd (save_droplet_info_json info ''droplet_info.json'' w r2);
                     r4 = snd (save_statefile info ''terraform.tfstate'' w r3);
                     r5 = snd (run_terraform_commands w (say [MsgEcosystem] r4))
                 in Some (None, r5)))))"

fun cleanup :: "string list \<Rightarrow> run \<Rightarrow> run" where
  "cleanup [] r = r"
| "cleanup (file # fs) r =
     (if disk r file \<noteq> None
      then cleanup fs (say [MsgCleaned file] (r\<lparr>disk := (disk r)(file := None)\<rparr>))
      else cleanup fs r)"

definition main_destroy :: "string \<Rightarrow> world \<Rightarrow> run \<Rightarrow> error option \<times> run" where
  "main_destroy token w r =
     (case disk r ''droplet_info.json'' of
        None \<Rightarrow> (None, say [MsgCannotDestroy] r)
      | Some (RecordDoc info) \<Rightarrow>
          (case delete_droplet_api token (info_id info) w r of
             (Inl e, r1) \<Rightarrow> (Some e, r1)
           | (Inr _, r1) \<Rightarrow> (None, cleanup [''droplet_info.json'', ''terraform.tfstate''] r1))
      | Some _ \<Rightarrow> (Some RecordLoadError, r))"

definition main_plan :: "listener \<Rightarrow> world \<Rightarrow> run \<Rightarrow> error option \<times> run" where
  "main_plan st w r =
     (None, snd (run_terraform_commands w
                   (say [MsgPlanMode, MsgWouldCreate (droplet_config st)] r)))"

text \<open>
  The body of the \<^verbatim>\<open>try\<close>. The input is the block list of the parsed file, or \<open>None\<close>
  when the file cannot be read. The walk, the token and the resource check come before
  the action is looked at.
\<close>

definition main_body ::
  "action \<Rightarrow> block list option \<Rightarrow> world \<Rightarrow> run \<Rightarrow> (error option \<times> run) option" where
  "main_body act src w r =
     (case src of
        None \<Rightarrow> Some (Some InputError, r)
      | Some tree \<Rightarrow>
          (case walk tree init_listener of
             Inl e \<Rightarrow> Some (Some e, r)
           | Inr st \<Rightarrow>
               (case resolve_token st of
                  Inl e \<Rightarrow> Some (Some e, r)
                | Inr token \<Rightarrow>
                    if droplet_config st = Map.empty then Some (Some MissingResource, r)
                    else (case act of
                            Apply \<Rightarrow> main_apply token st w r
                          | Destroy \<Rightarrow> Some (main_destroy token w r)
                          | Plan \<Rightarrow> Some (main_plan st w r)))))"

record outcome =
  trace :: run
  exit_code :: nat

definition start :: "world \<Rightarrow> run" where
  "start w = \<lparr>printed = [], api_calls = [], disk = files w, slept = 0\<rparr>"

text \<open>The \<^verbatim>\<open>except\<close> clause prints the error and exits with 1; a run that falls through exits with 0.\<close>

definition main :: "action \<Rightarrow> block list option \<Rightarrow> world \<Rightarrow> outcome option" where
  "main act src w =
     (case main_body act src w (start w) of
        None \<Rightarrow> None
      | Some (None, r) \<Rightarrow> Some \<lparr>trace = r, exit_code = 0\<rparr>
      | Some (Some e, r) \<Rightarrow> Some \<lparr>trace = say [MsgError e] r, exit_code = 1\<rparr>)"

section \<open>Reading the loop, and sample inputs\<close>

text \<open>
  A poll answer is pending when the loop reads it, finds no public address and goes on: it
  is a well-formed answer whose list of public addresses is empty.
\<close>

definition pending :: "poll_response \<Rightarrow> bool" where
  "pending p = (case p of PollFails \<Rightarrow> False | PollOk networks \<Rightarrow> public_ips networks = Inr [])"

text \<open>What the loop leaves with on an answer that is not pending.\<close>

definition poll_exit :: "poll_response \<Rightarrow> error + string" where
  "poll_exit p =
     (case p of
        PollFails \<Rightarrow> Inl RemoteApiError
      | PollOk networks \<Rightarrow>
          (case public_ips networks of Inl e \<Rightarrow> Inl e | Inr ips \<Rightarrow> Inr (hd ips)))"

definition quoted :: "string \<Rightarrow> string" where
  "quoted s = dquote # s @ [dquote]"

text \<open>
  The file of the end-to-end scenario: a variable \<^verbatim>\<open>token\<close> with default \<^verbatim>\<open>"secret123"\<close>,
  the provider \<^verbatim>\<open>digitalocean\<close> with \<^verbatim>\<open>token = var.token\<close>, and one droplet \<^verbatim>\<open>web\<close>.
\<close>

definition sample_tree :: "block list" where
  "sample_tree =
     [Variable (quoted ''token'') [(''default'', quoted ''secret123'')],
      Provider (quoted ''digitalocean'') [(''token'', ''var.token'')],
      Resource (quoted ''digitalocean_droplet'') (quoted ''web'')
        [(''name'', quoted ''web-1''), (''region'', quoted ''nyc1''),
         (''size'', quoted ''s-1vcpu-1gb''), (''image'', quoted ''ubuntu-22-04'')]]"

text \<open>
  A world with an empty working directory, in which the droplet gets the id 42, the third
  poll shows a private and a public interface, deletion is accepted, writes succeed and
  both subprocess commands exit with 0 and print nothing.
\<close>

definition sample_world :: world where
  "sample_world =
     \<lparr>files = Map.empty,
      create_response = CreateOk 42,
      poll_response =
        (\<lambda>i. if i < 2 then PollOk []
             else PollOk [[''type'' \<mapsto> ''private'', ''ip_address'' \<mapsto> ''10.0.0.2''],
                          [''type'' \<mapsto> ''public'', ''ip_address'' \<mapsto> ''203.0.113.7'']]),
      delete_response = DeleteStatus 204,
      write_result = (\<lambda>_. WriteOk),
      proc_result = (\<lambda>_. ProcExit 0 [] []),
      clock = ''2024-01-01T00:00:00Z''\<rparr>"

definition sample_record :: droplet_info where
  "sample_record =
     \<lparr>info_id = 42, info_ip = ''203.0.113.7'', info_name = ''web-1'', info_region = ''nyc1'',
      info_size = ''s-1vcpu-1gb'', info_image = ''ubuntu-22-04'',
      info_created_at = ''2024-01-01T00:00:00Z'', info_tags = []\<rparr>"

text \<open>
  Poll answers of a droplet that never shows an address: the first is well-formed and
  empty, every later one cannot be read (such as an error body without a \<^verbatim>\<open>droplet\<close> key).
\<close>

definition unreadable_polls :: "nat \<Rightarrow> poll_response" where
  "unreadable_polls i = (if i = 0 then PollOk [] else PollFails)"

text \<open>The sample world after a successful apply: both persisted files are there.\<close>

definition recorded_world :: world where
  "recorded_world =
     sample_world\<lparr>files := [''droplet_info.json'' \<mapsto> RecordDoc sample_record,
                            ''terraform.tfstate'' \<mapsto> SnapshotDoc sample_record]\<rparr>"

text \<open>What the walk makes of the sample file.\<close>

definition sample_listener :: listener where
  "sample_listener =
     \<lparr>variables = [''token'' \<mapsto> ''secret123''],
      provider_token_expr = Some ''var.token'',
      droplet_config = [''name'' \<mapsto> ''web-1'', ''region'' \<mapsto> ''nyc1'',
                        ''size'' \<mapsto> ''s-1vcpu-1gb'', ''image'' \<mapsto> ''ubuntu-22-04''],
      droplet_id = None, droplet_ip = None\<rparr>"

text \<open>
  More files: the sample file without its resource block; a droplet alone, with no
  provider block; a file whose provider is not the supported one; and a file that gives
  the same token as a literal and another droplet.
\<close>

definition no_resource_tree :: "block list" where
  "no_resource_tree =
     [Variable (quoted ''token'') [(''default'', quoted ''secret123'')],
      Provider (quoted ''digitalocean'') [(''token'', ''var.token'')]]"

definition no_provider_tree :: "block list" where
  "no_provider_tree =
     [Resource (quoted ''digitalocean_droplet'') (quoted ''web'')
        [(''name'', quoted ''web-1''), (''region'', quoted ''nyc1''),
         (''size'', quoted ''s-1vcpu-1gb''), (''image'', quoted ''ubuntu-22-04'')]]"

text \<open>What the walk makes of the droplet alone: attributes, and no token expression.\<close>

definition no_provider_listener :: listener where
  "no_provider_listener = sample_listener\<lparr>variables := Map.empty, provider_token_expr := None\<rparr>"

definition unsupported_provider_tree :: "block list" where
  "unsupported_provider_tree =
     [Variable (quoted ''token'') [(''default'', quoted ''secret123'')],
      Provider (quoted ''aws'') [(''token'', ''var.token'')],
      Resource (quoted ''digitalocean_droplet'') (quoted ''web'') [(''name'', quoted ''web-1'')]]"

definition literal_token_tree :: "block list" where
  "literal_token_tree =
     [Provider (quoted ''digitalocean'') [(''token'', quoted ''secret123'')],
      Resource (quoted ''digitalocean_droplet'') (quoted ''db'') [(''name'', quoted ''db-1'')]]"

definition literal_token_only_tree :: "block list" where
  "literal_token_only_tree =
     [Provider (quoted ''digitalocean'') [(''token'', quoted ''abc123'')]]"

section \<open>Facts about the string methods\<close>

lemma str_split_nosep: "d \<notin> set a \<Longrightarrow> str_split d a = [a]"
  by (induction a) auto

lemma str_split_sep: "d \<notin> set a \<Longrightarrow> str_split d (a @ d # r) = a # str_split d r"
  by (induction a) auto

lemma var_prefix_split:
  "str_split CHR ''.'' (''var.'' @ r) = ''var'' # str_split CHR ''.'' r"
  using str_split_sep [of "CHR ''.''" "''var''" r] by simp

lemma startswith_var [simp]: "str_startswith (''var.'' @ r) ''var.''"
  by (simp add: str_startswith_def)

lemma str_strip_id:
  assumes "s \<noteq> []" "hd s \<noteq> q" "last s \<noteq> q"
  shows "str_strip q s = s"
proof -
  have a: "dropWhile (\<lambda>c. c = q) s = s"
    using assms by (simp add: dropWhile_eq_self_iff)
  have b: "dropWhile (\<lambda>c. c = q) (rev s) = rev s"
    using assms by (simp add: dropWhile_eq_self_iff hd_rev)
  show ?thesis by (simp add: str_strip_def a b)
qed

lemma str_strip_snoc: "str_strip q (s @ [q]) = str_strip q s"
proof (cases "\<forall>x\<in>set s. x = q")
  case True
  then have a: "dropWhile (\<lambda>c. c = q) s = []" by simp
  from True have b: "dropWhile (\<lambda>c. c = q) (s @ [q]) = []" by simp
  show ?thesis unfolding str_strip_def a b by simp
next
  case False
  then have "dropWhile (\<lambda>c. c = q) (s @ [q]) = dropWhile (\<lambda>c. c = q) s @ [q]"
    by (auto simp: dropWhile_append)
  then show ?thesis by (simp add: str_strip_def)
qed

lemma str_strip_cons: "str_strip q (q # s) = str_strip q s"
  by (simp add: str_strip_def)

lemma strip_quotes_quoted:
  "s \<noteq> [] \<Longrightarrow> hd s \<noteq> dquote \<Longrightarrow> last s \<noteq> dquote \<Longrightarrow> strip_quotes (dquote # s @ [dquote]) = s"
  using str_strip_snoc [of dquote "dquote # s"]
  by (simp add: strip_quotes_def str_strip_cons str_strip_id)

lemma resolve_var_nodot:
  "CHR ''.'' \<notin> set n \<Longrightarrow>
   resolve_token (st\<lparr>provider_token_expr := Some (''var.'' @ n)\<rparr>) =
     (case variables st n of None \<Rightarrow> Inl (UndefinedVariable n) | Some v \<Rightarrow> Inr v)"
  unfolding resolve_token_def
  by (simp add: var_prefix_split str_split_nosep del: append.simps split: option.splits)

lemma resolve_var_dotted:
  "CHR ''.'' \<notin> set a \<Longrightarrow>
   resolve_token (st\<lparr>provider_token_expr := Some (''var.'' @ a @ CHR ''.'' # rest)\<rparr>) =
     (case variables st a of None \<Rightarrow> Inl (UndefinedVariable a) | Some v \<Rightarrow> Inr v)"
  unfolding resolve_token_def
  by (cases "str_split CHR ''.'' rest") (simp_all add: var_prefix_split str_split_sep del: append.simps split: option.splits)

section \<open>Facts about the listener\<close>

lemma variable_step_other_key:
  "k \<noteq> n \<Longrightarrow> variables (foldl (variable_step n) st kvs) k = variables st k"
  by (induction kvs arbitrary: st) (simp_all add: variable_step_def)

lemma variable_step_no_default:
  "''default'' \<notin> fst ` set kvs \<Longrightarrow> foldl (variable_step n) st kvs = st"
  by (induction kvs arbitrary: st) (auto simp: variable_step_def)

lemma variable_step_fields:
  "provider_token_expr (foldl (variable_step n) st kvs) = provider_token_expr st \<and>
   droplet_config (foldl (variable_step n) st kvs) = droplet_config st \<and>
   droplet_id (foldl (variable_step n) st kvs) = droplet_id st \<and>
   droplet_ip (foldl (variable_step n) st kvs) = droplet_ip st"
  by (induction kvs arbitrary: st) (simp_all add: variable_step_def)

lemma enterVariable_no_default:
  "''default'' \<notin> fst ` set kvs \<Longrightarrow> enterVariable rn kvs st = st"
  by (simp add: enterVariable_def variable_step_no_default)

lemma enterVariable_last_default:
  assumes "''default'' \<notin> fst ` set post"
  shows "enterVariable rn (pre @ (''default'', e) # post) st =
           st\<lparr>variables := (variables st)(strip_quotes rn \<mapsto> strip_quotes e)\<rparr>"
proof -
  let ?n = "strip_quotes rn"
  let ?s1 = "foldl (variable_step ?n) st pre"
  have r: "enterVariable rn (pre @ (''default'', e) # post) st =
             ?s1\<lparr>variables := (variables ?s1)(?n \<mapsto> strip_quotes e)\<rparr>"
    using assms by (simp add: enterVariable_def variable_step_no_default variable_step_def)
  have v: "(variables ?s1)(?n \<mapsto> strip_quotes e) = (variables st)(?n \<mapsto> strip_quotes e)"
    by (rule ext) (simp add: variable_step_other_key)
  show ?thesis
    unfolding r v using variable_step_fields [of ?n st pre] by (intro listener.equality) simp_all
qed

lemma enterVariable_other_key:
  "strip_quotes rn \<noteq> k \<Longrightarrow> variables (enterVariable rn kvs st) k = variables st k"
  by (simp add: enterVariable_def variable_step_other_key)

lemma provider_step_variables:
  "variables (foldl provider_step st kvs) = variables st"
  by (induction kvs arbitrary: st) (simp_all add: provider_step_def)

lemma provider_step_config:
  "droplet_config (foldl provider_step st kvs) = droplet_config st"
  by (induction kvs arbitrary: st) (simp_all add: provider_step_def)

lemma resource_step_variables:
  "variables (foldl resource_step st kvs) = variables st"
  by (induction kvs arbitrary: st) (simp_all add: resource_step_def)

lemma resource_step_token:
  "provider_token_expr (foldl resource_step st kvs) = provider_token_expr st"
  by (induction kvs arbitrary: st) (simp_all add: resource_step_def)

lemma resource_step_ids:
  "droplet_id (foldl resource_step st kvs) = droplet_id st \<and>
   droplet_ip (foldl resource_step st kvs) = droplet_ip st"
  by (induction kvs arbitrary: st) (simp_all add: resource_step_def)

lemma resource_step_other_key:
  "k \<notin> fst ` set kvs \<Longrightarrow> droplet_config (foldl resource_step st kvs) k = droplet_config st k"
  by (induction kvs arbitrary: st) (auto simp: resource_step_def)

lemma resource_step_last_key:
  "k \<notin> fst ` set post \<Longrightarrow>
   droplet_config (foldl resource_step st (pre @ (k, v) # post)) k = Some (strip_quotes v)"
  by (simp add: resource_step_other_key resource_step_def)

lemma walk_append:
  "walk (xs @ ys) st = (case walk xs st of Inl e \<Rightarrow> Inl e | Inr s \<Rightarrow> walk ys s)"
  by (induction xs arbitrary: st) (auto split: sum.splits)

lemma enter_variables_unchanged:
  assumes "enter b st = Inr st'"
    and "\<And>rn kvs. b = Variable rn kvs \<Longrightarrow> strip_quotes rn = n \<Longrightarrow> ''default'' \<notin> fst ` set kvs"
  shows "variables st' n = variables st n"
proof (cases b)
  case (Variable rn kvs)
  show ?thesis
  proof (cases "strip_quotes rn = n")
    case True
    with assms Variable show ?thesis by (auto simp: enterVariable_no_default)
  next
    case False
    with assms Variable show ?thesis by (auto simp: enterVariable_other_key)
  qed
next
  case (Provider rn kvs)
  with assms show ?thesis
    by (auto simp: enterProvider_def provider_step_variables split: if_splits)
next
  case (Resource rt rn kvs)
  with assms show ?thesis
    by (auto simp: enterResource_def resource_step_variables)
qed

lemma walk_variables_unchanged:
  "walk bs st = Inr st' \<Longrightarrow>
   (\<forall>rn kvs. Variable rn kvs \<in> set bs \<and> strip_quotes rn = n \<longrightarrow> ''default'' \<notin> fst ` set kvs) \<Longrightarrow>
   variables st' n = variables st n"
proof (induction bs arbitrary: st)
  case Nil
  then show ?case by simp
next
  case (Cons b bs)
  from Cons.prems(1) obtain s1 where e: "enter b st = Inr s1" and w: "walk bs s1 = Inr st'"
    by (auto split: sum.splits)
  have "variables s1 n = variables st n"
    using e Cons.prems(2) by (intro enter_variables_unchanged [of b st s1]) auto
  moreover have "variables st' n = variables s1 n"
    using w Cons.prems(2) by (intro Cons.IH) auto
  ultimately show ?case by simp
qed

lemma walk_unsupported_provider:
  "Provider rn kvs \<in> set bs \<Longrightarrow> strip_quotes rn \<noteq> ''digitalocean'' \<Longrightarrow>
   walk bs st = Inl UnsupportedProvider"
proof (induction bs arbitrary: st)
  case Nil
  then show ?case by simp
next
  case (Cons b bs)
  show ?case
  proof (cases "enter b st")
    case (Inl e)
    then have "e = UnsupportedProvider"
      by (cases b) (auto simp: enterProvider_def split: if_splits)
    with Inl show ?thesis by simp
  next
    case (Inr s1)
    then have "b \<noteq> Provider rn kvs"
      using Cons.prems(2) by (auto simp: enterProvider_def)
    with Cons.prems have "Provider rn kvs \<in> set bs" by simp
    with Cons.IH Cons.prems(2) Inr show ?thesis by simp
  qed
qed

section \<open>Reference resolution\<close>

lemma resolve_var_segment:
  assumes "str_startswith e ''var.''"
  shows "resolve_token (st\<lparr>provider_token_expr := Some e\<rparr>) =
           (case variables st (takeWhile (\<lambda>c. c \<noteq> CHR ''.'') (drop 4 e)) of
              None \<Rightarrow> Inl (UndefinedVariable (takeWhile (\<lambda>c. c \<noteq> CHR ''.'') (drop 4 e)))
            | Some v \<Rightarrow> Inr v)"
proof -
  from assms obtain r where e: "e = ''var.'' @ r"
    by (auto simp: str_startswith_def prefix_def)
  let ?a = "takeWhile (\<lambda>c. c \<noteq> CHR ''.'') r"
  have a: "CHR ''.'' \<notin> set ?a"
    by (auto dest: set_takeWhileD)
  have d: "drop 4 e = r" by (simp add: e)
  show ?thesis
  proof (cases "dropWhile (\<lambda>c. c \<noteq> CHR ''.'') r")
    case Nil
    have "r = ?a @ dropWhile (\<lambda>c. c \<noteq> CHR ''.'') r"
      by (simp only: takeWhile_dropWhile_id)
    then have aeq: "?a = r" unfolding Nil by simp
    with a have "CHR ''.'' \<notin> set r" by simp
    then have "resolve_token (st\<lparr>provider_token_expr := Some (''var.'' @ r)\<rparr>) =
            (case variables st r of None \<Rightarrow> Inl (UndefinedVariable r) | Some v \<Rightarrow> Inr v)"
      by (rule resolve_var_nodot)
    then show ?thesis
      unfolding d aeq unfolding e .
  next
    case (Cons c rest)
    have c: "c = CHR ''.''"
      using hd_dropWhile [of "\<lambda>c. c \<noteq> CHR ''.''" r] Cons by simp
    have "r = ?a @ dropWhile (\<lambda>c. c \<noteq> CHR ''.'') r"
      by (simp only: takeWhile_dropWhile_id)
    then have r: "r = ?a @ CHR ''.'' # rest"
      unfolding Cons c .
    have "resolve_token (st\<lparr>provider_token_expr := Some (''var.'' @ ?a @ CHR ''.'' # rest)\<rparr>) =
            (case variables st ?a of None \<Rightarrow> Inl (UndefinedVariable ?a) | Some v \<Rightarrow> Inr v)"
      using a by (rule resolve_var_dotted)
    then show ?thesis
      unfolding d unfolding e using r by simp
  qed
qed

text \<open>
  Claim C4. \<^verbatim>\<open>resolve_token\<close> fails with the no-token error when the stored expression is
  absent or empty. When the expression starts with \<^verbatim>\<open>var.\<close>, the name is the text between
  the prefix and the next dot (all the rest when there is no further dot): the result is
  the Symbol Table's value for that name, and the undefined-variable error for that name
  when the table has none. Every other expression resolves to its text with the surrounding
  double quotes removed, so the quoted literal \<^verbatim>\<open>"abc123"\<close> resolves to \<^verbatim>\<open>abc123\<close>.
\<close>

theorem resolve_token_contract:
  "resolve_token (st\<lparr>provider_token_expr := None\<rparr>) = Inl NoTokenSpecified
   \<and> resolve_token (st\<lparr>provider_token_expr := Some []\<rparr>) = Inl NoTokenSpecified
   \<and> (str_startswith e ''var.'' \<longrightarrow>
        resolve_token (st\<lparr>provider_token_expr := Some e\<rparr>) =
          (case variables st (takeWhile (\<lambda>c. c \<noteq> CHR ''.'') (drop 4 e)) of
             None \<Rightarrow> Inl (UndefinedVariable (takeWhile (\<lambda>c. c \<noteq> CHR ''.'') (drop 4 e)))
           | Some v \<Rightarrow> Inr v))
   \<and> (CHR ''.'' \<notin> set n \<longrightarrow>
        resolve_token (st\<lparr>provider_token_expr := Some (''var.'' @ n)\<rparr>) =
          (case variables st n of None \<Rightarrow> Inl (UndefinedVariable n) | Some v \<Rightarrow> Inr v))
   \<and> (e \<noteq> [] \<longrightarrow> \<not> str_startswith e ''var.'' \<longrightarrow>
        resolve_token (st\<lparr>provider_token_expr := Some e\<rparr>) = Inr (strip_quotes e))
   \<and> (s \<noteq> [] \<longrightarrow> hd s \<noteq> dquote \<longrightarrow> last s \<noteq> dquote \<longrightarrow>
        strip_quotes (dquote # s @ [dquote]) = s)
   \<and> resolve_token (st\<lparr>provider_token_expr := Some (dquote # ''abc123'' @ [dquote])\<rparr>) =
        Inr ''abc123''"
proof -
  have 1: "resolve_token (st\<lparr>provider_token_expr := None\<rparr>) = Inl NoTokenSpecified"
    by (simp add: resolve_token_def)
  have 2: "resolve_token (st\<lparr>provider_token_expr := Some []\<rparr>) = Inl NoTokenSpecified"
    by (simp add: resolve_token_def)
  have 5: "e \<noteq> [] \<longrightarrow> \<not> str_startswith e ''var.'' \<longrightarrow>
        resolve_token (st\<lparr>provider_token_expr := Some e\<rparr>) = Inr (strip_quotes e)"
    by (simp add: resolve_token_def)
  have 7: "resolve_token (st\<lparr>provider_token_expr := Some (dquote # ''abc123'' @ [dquote])\<rparr>) =
        Inr ''abc123''"
    by (simp add: resolve_token_def str_startswith_def strip_quotes_def str_strip_def dquote_def)
  have 3: "str_startswith e ''var.'' \<longrightarrow>
        resolve_token (st\<lparr>provider_token_expr := Some e\<rparr>) =
          (case variables st (takeWhile (\<lambda>c. c \<noteq> CHR ''.'') (drop 4 e)) of
             None \<Rightarrow> Inl (UndefinedVariable (takeWhile (\<lambda>c. c \<noteq> CHR ''.'') (drop 4 e)))
           | Some v \<Rightarrow> Inr v)"
    by (rule impI) (rule resolve_var_segment)
  have 4: "CHR ''.'' \<notin> set n \<longrightarrow>
        resolve_token (st\<lparr>provider_token_expr := Some (''var.'' @ n)\<rparr>) =
          (case variables st n of None \<Rightarrow> Inl (UndefinedVariable n) | Some v \<Rightarrow> Inr v)"
    by (rule impI) (rule resolve_var_nodot)
  have 6: "s \<noteq> [] \<longrightarrow> hd s \<noteq> dquote \<longrightarrow> last s \<noteq> dquote \<longrightarrow>
        strip_quotes (dquote # s @ [dquote]) = s"
    by (intro impI) (rule strip_quotes_quoted)
  show ?thesis
    by (rule conjI [OF 1 conjI [OF 2 conjI [OF 3 conjI [OF 4 conjI [OF 5 conjI [OF 6 7]]]]]])
qed

theorem resolve_token_contract_witness:
  "str_startswith ''var.token'' ''var.''
   \<and> CHR ''.'' \<notin> set ''token''
   \<and> resolve_token (init_listener\<lparr>provider_token_expr := Some ''var.token''\<rparr>) =
       Inl (UndefinedVariable ''token'')
   \<and> resolve_token
        (init_listener\<lparr>variables := [''token'' \<mapsto> ''secret123''],
                        provider_token_expr := Some ''var.token''\<rparr>) = Inr ''secret123''
   \<and> ''abc123'' \<noteq> [] \<and> \<not> str_startswith ''abc123'' ''var.''
   \<and> hd ''abc123'' \<noteq> dquote \<and> last ''abc123'' \<noteq> dquote
   \<and> resolve_token (init_listener\<lparr>provider_token_expr := Some ''abc123''\<rparr>) = Inr ''abc123''
   \<and> strip_quotes (dquote # ''abc123'' @ [dquote]) = ''abc123''"
  using resolve_token_contract
      [where st = init_listener and e = "''var.token''" and n = "''token''" and s = "''abc123''"]
    resolve_token_contract
      [where st = "init_listener\<lparr>variables := [''token'' \<mapsto> ''secret123'']\<rparr>"
         and e = "''var.token''" and n = "''token''" and s = "''abc123''"]
    resolve_token_contract
      [where st = init_listener and e = "''abc123''" and n = "''token''" and s = "''abc123''"]
  by (simp add: str_startswith_def init_listener_def dquote_def strip_quotes_def str_strip_def)

text \<open>
  Claim C10. For an expression \<^verbatim>\<open>var.<a>.<b>\<close>, where \<^verbatim>\<open><a>\<close> has no dot, only \<^verbatim>\<open><a>\<close> is
  looked up: the result is the value of variable \<^verbatim>\<open><a>\<close>, or the undefined-variable error
  naming \<^verbatim>\<open><a>\<close>, whatever follows the second dot and whatever the table holds under the
  longer name.
\<close>

theorem resolve_token_first_segment:
  "CHR ''.'' \<notin> set a \<Longrightarrow>
   resolve_token (st\<lparr>provider_token_expr := Some (''var.'' @ a @ CHR ''.'' # rest)\<rparr>) =
     (case variables st a of None \<Rightarrow> Inl (UndefinedVariable a) | Some v \<Rightarrow> Inr v)"
  by (rule resolve_var_dotted)

theorem resolve_token_first_segment_witness:
  "CHR ''.'' \<notin> set ''x''
   \<and> resolve_token
        (init_listener\<lparr>variables := [''x'' \<mapsto> ''vx'', ''x.y'' \<mapsto> ''vxy''],
                        provider_token_expr := Some ''var.x.y''\<rparr>) = Inr ''vx''
   \<and> resolve_token
        (init_listener\<lparr>variables := [''x.y'' \<mapsto> ''vxy''],
                        provider_token_expr := Some ''var.x.y''\<rparr>) = Inl (UndefinedVariable ''x'')"
  using resolve_token_first_segment
      [where a = "''x''" and rest = "''y''"
         and st = "init_listener\<lparr>variables := [''x'' \<mapsto> ''vx'', ''x.y'' \<mapsto> ''vxy'']\<rparr>"]
    resolve_token_first_segment
      [where a = "''x''" and rest = "''y''"
         and st = "init_listener\<lparr>variables := [''x.y'' \<mapsto> ''vxy'']\<rparr>"]
  by (simp add: init_listener_def)

section \<open>Block extraction\<close>

text \<open>
  Claim C5. A variable block without a \<^verbatim>\<open>default\<close> key leaves the listener as it was. A
  block with one stores the quote-stripped text of its last \<^verbatim>\<open>default\<close> entry under the
  quote-stripped name and changes nothing else. Over a whole walk that does not raise, the
  Symbol Table holds for a name the default of the last block that has that name and a
  \<^verbatim>\<open>default\<close> key (a later block overwrites an earlier one), and keeps its initial
  entry for a name that no such block carries.
\<close>

theorem variable_defaults_last_write_wins:
  "(''default'' \<notin> fst ` set kvs \<longrightarrow> enterVariable rn kvs st = st)
   \<and> (''default'' \<notin> fst ` set post \<longrightarrow>
        enterVariable rn (pre @ (''default'', e) # post) st =
          st\<lparr>variables := (variables st)(strip_quotes rn \<mapsto> strip_quotes e)\<rparr>)
   \<and> (walk (earlier @ Variable rn (pre @ (''default'', e) # post) # later) st = Inr st' \<longrightarrow>
        ''default'' \<notin> fst ` set post \<longrightarrow>
        (\<forall>rn' kvs'. Variable rn' kvs' \<in> set later \<and> strip_quotes rn' = strip_quotes rn
            \<longrightarrow> ''default'' \<notin> fst ` set kvs') \<longrightarrow>
        variables st' (strip_quotes rn) = Some (strip_quotes e))
   \<and> (walk bs st = Inr st'' \<longrightarrow>
        (\<forall>rn' kvs'. Variable rn' kvs' \<in> set bs \<and> strip_quotes rn' = n
            \<longrightarrow> ''default'' \<notin> fst ` set kvs') \<longrightarrow>
        variables st'' n = variables st n)"
proof -
  have 1: "''default'' \<notin> fst ` set kvs \<longrightarrow> enterVariable rn kvs st = st"
    by (rule impI) (rule enterVariable_no_default)
  have 2: "''default'' \<notin> fst ` set post \<longrightarrow>
        enterVariable rn (pre @ (''default'', e) # post) st =
          st\<lparr>variables := (variables st)(strip_quotes rn \<mapsto> strip_quotes e)\<rparr>"
    by (rule impI) (rule enterVariable_last_default)
  have 3: "walk (earlier @ Variable rn (pre @ (''default'', e) # post) # later) st = Inr st' \<longrightarrow>
        ''default'' \<notin> fst ` set post \<longrightarrow>
        (\<forall>rn' kvs'. Variable rn' kvs' \<in> set later \<and> strip_quotes rn' = strip_quotes rn
            \<longrightarrow> ''default'' \<notin> fst ` set kvs') \<longrightarrow>
        variables st' (strip_quotes rn) = Some (strip_quotes e)"
  proof (intro impI)
    assume w: "walk (earlier @ Variable rn (pre @ (''default'', e) # post) # later) st = Inr st'"
      and p: "''default'' \<notin> fst ` set post"
      and l: "\<forall>rn' kvs'. Variable rn' kvs' \<in> set later \<and> strip_quotes rn' = strip_quotes rn
            \<longrightarrow> ''default'' \<notin> fst ` set kvs'"
    from w obtain s1 where s1: "walk earlier st = Inr s1"
      and w2: "walk later (enterVariable rn (pre @ (''default'', e) # post) s1) = Inr st'"
      by (auto simp: walk_append split: sum.splits)
    have "variables st' (strip_quotes rn) =
            variables (enterVariable rn (pre @ (''default'', e) # post) s1) (strip_quotes rn)"
      using w2 l by (rule walk_variables_unchanged)
    also have "\<dots> = Some (strip_quotes e)"
      by (simp add: enterVariable_last_default [OF p])
    finally show "variables st' (strip_quotes rn) = Some (strip_quotes e)" .
  qed
  have 4: "walk bs st = Inr st'' \<longrightarrow>
        (\<forall>rn' kvs'. Variable rn' kvs' \<in> set bs \<and> strip_quotes rn' = n
            \<longrightarrow> ''default'' \<notin> fst ` set kvs') \<longrightarrow>
        variables st'' n = variables st n"
    by (intro impI) (rule walk_variables_unchanged)
  show ?thesis
    by (rule conjI [OF 1 conjI [OF 2 conjI [OF 3 4]]])
qed

theorem variable_defaults_last_write_wins_witness:
  "''default'' \<notin> fst ` set [(''type'', ''string'')]
   \<and> ''default'' \<notin> fst ` set ([] :: keyValue list)
   \<and> enterVariable ''a'' [(''type'', ''string'')] init_listener = init_listener
   \<and> variables
        (enterVariable (dquote # ''token'' @ [dquote])
           [(''default'', dquote # ''old'' @ [dquote]), (''default'', dquote # ''new'' @ [dquote])]
           init_listener) ''token'' = Some ''new''
   \<and> walk [Variable (dquote # ''t'' @ [dquote]) [(''default'', ''one'')],
            Variable (dquote # ''t'' @ [dquote]) [(''default'', ''two'')],
            Variable (dquote # ''t'' @ [dquote]) [(''type'', ''string'')]] init_listener
       = Inr (init_listener\<lparr>variables := [''t'' \<mapsto> ''two'']\<rparr>)
   \<and> variables (init_listener\<lparr>variables := [''t'' \<mapsto> ''two'']\<rparr>) ''t'' = Some ''two''
   \<and> variables (init_listener\<lparr>variables := [''t'' \<mapsto> ''two'']\<rparr>) ''u'' = None"
  using variable_defaults_last_write_wins
    [where kvs = "[(''type'', ''string'')]" and rn = "dquote # ''t'' @ [dquote]"
       and st = init_listener and pre = "[]" and e = "''two''" and post = "[]"
       and earlier = "[Variable (dquote # ''t'' @ [dquote]) [(''default'', ''one'')]]"
       and later = "[Variable (dquote # ''t'' @ [dquote]) [(''type'', ''string'')]]"
       and st' = "init_listener\<lparr>variables := [''t'' \<mapsto> ''two'']\<rparr>"
       and bs = "[Variable (dquote # ''t'' @ [dquote]) [(''default'', ''one'')],
            Variable (dquote # ''t'' @ [dquote]) [(''default'', ''two'')],
            Variable (dquote # ''t'' @ [dquote]) [(''type'', ''string'')]]"
       and st'' = "init_listener\<lparr>variables := [''t'' \<mapsto> ''two'']\<rparr>" and n = "''u''"]
    variable_defaults_last_write_wins
    [where kvs = "[(''type'', ''string'')]" and rn = "dquote # ''token'' @ [dquote]"
       and st = init_listener and pre = "[(''default'', dquote # ''old'' @ [dquote])]"
       and e = "dquote # ''new'' @ [dquote]" and post = "[]"
       and earlier = "[]" and later = "[]" and bs = "[]" and n = "''u''"]
  by (simp add: enterVariable_def variable_step_def init_listener_def strip_quotes_def
        str_strip_def dquote_def)

text \<open>
  Claim C6. A resource block whose quote-stripped type is not \<^verbatim>\<open>digitalocean_droplet\<close> is
  entered without error and leaves the listener, the resource attribute map included, as
  it was. A block of that type is entered without error too, stores for every key of the
  block the quote-stripped value of the key's last entry, keeps the map's earlier entries
  for all other keys, and leaves the Symbol Table and the token expression alone.
\<close>

theorem resource_block_extraction:
  "(strip_quotes rt \<noteq> ''digitalocean_droplet'' \<longrightarrow> enter (Resource rt rn kvs) st = Inr st)
   \<and> (strip_quotes rt = ''digitalocean_droplet'' \<longrightarrow>
        (\<exists>st'. enter (Resource rt rn kvs) st = Inr st'
           \<and> variables st' = variables st
           \<and> provider_token_expr st' = provider_token_expr st
           \<and> (\<forall>k. k \<notin> fst ` set kvs \<longrightarrow> droplet_config st' k = droplet_config st k)
           \<and> (\<forall>pre k v post. kvs = pre @ (k, v) # post \<and> k \<notin> fst ` set post
                  \<longrightarrow> droplet_config st' k = Some (strip_quotes v))))"
proof (intro conjI impI)
  assume "strip_quotes rt \<noteq> ''digitalocean_droplet''"
  then show "enter (Resource rt rn kvs) st = Inr st"
    by (simp add: enterResource_def)
next
  assume t: "strip_quotes rt = ''digitalocean_droplet''"
  let ?st' = "foldl resource_step st kvs"
  have "enter (Resource rt rn kvs) st = Inr ?st'"
    using t by (simp add: enterResource_def)
  moreover have "variables ?st' = variables st"
    by (rule resource_step_variables)
  moreover have "provider_token_expr ?st' = provider_token_expr st"
    by (rule resource_step_token)
  moreover have "\<forall>k. k \<notin> fst ` set kvs \<longrightarrow> droplet_config ?st' k = droplet_config st k"
    by (intro allI impI) (rule resource_step_other_key)
  moreover have "\<forall>pre k v post. kvs = pre @ (k, v) # post \<and> k \<notin> fst ` set post
                  \<longrightarrow> droplet_config ?st' k = Some (strip_quotes v)"
  proof (intro allI impI)
    fix pre k v post
    assume a: "kvs = pre @ (k, v) # post \<and> k \<notin> fst ` set post"
    then have "droplet_config (foldl resource_step st (pre @ (k, v) # post)) k = Some (strip_quotes v)"
      by (intro resource_step_last_key) simp
    with a show "droplet_config ?st' k = Some (strip_quotes v)" by simp
  qed
  ultimately show "\<exists>st'. enter (Resource rt rn kvs) st = Inr st'
           \<and> variables st' = variables st
           \<and> provider_token_expr st' = provider_token_expr st
           \<and> (\<forall>k. k \<notin> fst ` set kvs \<longrightarrow> droplet_config st' k = droplet_config st k)
           \<and> (\<forall>pre k v post. kvs = pre @ (k, v) # post \<and> k \<notin> fst ` set post
                  \<longrightarrow> droplet_config st' k = Some (strip_quotes v))"
    by (intro exI [of _ ?st'] conjI)
qed

theorem resource_block_extraction_witness:
  "strip_quotes (dquote # ''aws_instance'' @ [dquote]) \<noteq> ''digitalocean_droplet''
   \<and> enter (Resource (dquote # ''aws_instance'' @ [dquote]) (dquote # ''web'' @ [dquote])
              [(''name'', ''x'')]) init_listener = Inr init_listener
   \<and> strip_quotes (dquote # ''digitalocean_droplet'' @ [dquote]) = ''digitalocean_droplet''
   \<and> (\<exists>st'. enter (Resource (dquote # ''digitalocean_droplet'' @ [dquote])
                     (dquote # ''web'' @ [dquote])
                     [(''name'', dquote # ''a'' @ [dquote]), (''size'', ''s''),
                      (''name'', dquote # ''b'' @ [dquote])]) init_listener = Inr st'
          \<and> droplet_config st' ''name'' = Some ''b''
          \<and> droplet_config st' ''size'' = Some ''s''
          \<and> droplet_config st' ''region'' = None)"
  using resource_block_extraction
    [where rt = "dquote # ''aws_instance'' @ [dquote]" and rn = "dquote # ''web'' @ [dquote]"
       and kvs = "[(''name'', ''x'')]" and st = init_listener]
    resource_block_extraction
    [where rt = "dquote # ''digitalocean_droplet'' @ [dquote]" and rn = "dquote # ''web'' @ [dquote]"
       and kvs = "[(''name'', dquote # ''a'' @ [dquote]), (''size'', ''s''),
                      (''name'', dquote # ''b'' @ [dquote])]" and st = init_listener]
  by (simp add: enterResource_def resource_step_def init_listener_def strip_quotes_def
        str_strip_def dquote_def)

lemma main_walk_error:
  "walk bs init_listener = Inl e \<Longrightarrow>
   main act (Some bs) w = Some \<lparr>trace = say [MsgError e] (start w), exit_code = 1\<rparr>"
  by (simp add: main_def main_body_def)

text \<open>
  Claim C7. A provider block whose quote-stripped name is not \<^verbatim>\<open>digitalocean\<close> raises as
  soon as it is entered, before any of its entries is read. A tree that holds such a block
  makes the walk fail with that error, whatever the other blocks say, and the run of every
  action ends there: it prints the error alone, issues no request, leaves the working
  directory alone and exits with 1. The token is resolved only from a listener that the walk
  returned, so the failure comes from the walk and never from the resolution.
\<close>

theorem unsupported_provider_fails_extraction:
  "Provider rn kvs \<in> set bs \<Longrightarrow> strip_quotes rn \<noteq> ''digitalocean'' \<Longrightarrow>
   enterProvider rn kvs st = Inl UnsupportedProvider
   \<and> walk bs st = Inl UnsupportedProvider
   \<and> main act (Some bs) w =
       Some \<lparr>trace = \<lparr>printed = [MsgError UnsupportedProvider], api_calls = [],
                       disk = files w, slept = 0\<rparr>,
             exit_code = 1\<rparr>"
proof (intro conjI)
  assume p: "Provider rn kvs \<in> set bs" and n: "strip_quotes rn \<noteq> ''digitalocean''"
  show "enterProvider rn kvs st = Inl UnsupportedProvider"
    using n by (simp add: enterProvider_def)
  show "walk bs st = Inl UnsupportedProvider"
    using p n by (rule walk_unsupported_provider)
  have "walk bs init_listener = Inl UnsupportedProvider"
    using p n by (rule walk_unsupported_provider)
  then show "main act (Some bs) w =
       Some \<lparr>trace = \<lparr>printed = [MsgError UnsupportedProvider], api_calls = [],
                       disk = files w, slept = 0\<rparr>,
             exit_code = 1\<rparr>"
    by (simp add: main_walk_error say_def start_def)
qed

theorem unsupported_provider_fails_extraction_witness:
  "Provider (dquote # ''aws'' @ [dquote]) [(''token'', ''var.missing'')]
     \<in> set [Variable (dquote # ''t'' @ [dquote]) [(''default'', ''x'')],
            Provider (dquote # ''aws'' @ [dquote]) [(''token'', ''var.missing'')],
            Resource (dquote # ''digitalocean_droplet'' @ [dquote]) (dquote # ''web'' @ [dquote])
              [(''name'', ''n'')]]
   \<and> strip_quotes (dquote # ''aws'' @ [dquote]) \<noteq> ''digitalocean''
   \<and> walk [Variable (dquote # ''t'' @ [dquote]) [(''default'', ''x'')],
            Provider (dquote # ''aws'' @ [dquote]) [(''token'', ''var.missing'')],
            Resource (dquote # ''digitalocean_droplet'' @ [dquote]) (dquote # ''web'' @ [dquote])
              [(''name'', ''n'')]] init_listener = Inl UnsupportedProvider
   \<and> main Apply
         (Some [Variable (dquote # ''t'' @ [dquote]) [(''default'', ''x'')],
            Provider (dquote # ''aws'' @ [dquote]) [(''token'', ''var.missing'')],
            Resource (dquote # ''digitalocean_droplet'' @ [dquote]) (dquote # ''web'' @ [dquote])
              [(''name'', ''n'')]]) sample_world =
       Some \<lparr>trace = (start sample_world)\<lparr>printed := [MsgError UnsupportedProvider]\<rparr>,
             exit_code = 1\<rparr>"
  using unsupported_provider_fails_extraction
    [where rn = "dquote # ''aws'' @ [dquote]" and kvs = "[(''token'', ''var.missing'')]"
       and st = init_listener and act = Apply and w = sample_world
       and bs = "[Variable (dquote # ''t'' @ [dquote]) [(''default'', ''x'')],
            Provider (dquote # ''aws'' @ [dquote]) [(''token'', ''var.missing'')],
            Resource (dquote # ''digitalocean_droplet'' @ [dquote]) (dquote # ''web'' @ [dquote])
              [(''name'', ''n'')]]"]
  by (simp add: strip_quotes_def str_strip_def dquote_def start_def)

section \<open>The polling loop\<close>

lemma poll_loop_pending:
  "pending (polls i) \<Longrightarrow>
   poll_loop token did polls i r =
     poll_loop token did polls (Suc i) (sleep 5 (request (ApiPoll token did) r))"
  by (subst poll_loop.simps) (auto simp: pending_def split: poll_response.splits)

lemma poll_loop_decisive:
  "\<not> pending (polls i) \<Longrightarrow>
   poll_loop token did polls i r = Some (poll_exit (polls i), request (ApiPoll token did) r)"
  by (subst poll_loop.simps)
     (auto simp: pending_def poll_exit_def split: poll_response.splits sum.splits list.splits)

lemma poll_loop_skip:
  "(\<forall>j<k. pending (polls (i + j))) \<Longrightarrow>
   poll_loop token did polls i r =
   poll_loop token did polls (i + k)
     (r\<lparr>api_calls := api_calls r @ replicate k (ApiPoll token did), slept := slept r + 5 * k\<rparr>)"
proof (induction k arbitrary: i r)
  case 0
  then show ?case by simp
next
  case (Suc k)
  have p: "pending (polls i)"
    using Suc.prems [rule_format, of 0] by simp
  have q: "\<forall>j<k. pending (polls (Suc i + j))"
  proof (intro allI impI)
    fix j assume "j < k"
    then show "pending (polls (Suc i + j))"
      using Suc.prems [rule_format, of "Suc j"] by simp
  qed
  have "poll_loop token did polls i r =
          poll_loop token did polls (Suc i) (sleep 5 (request (ApiPoll token did) r))"
    using p by (rule poll_loop_pending)
  also have "\<dots> = poll_loop token did polls (Suc i + k)
      ((sleep 5 (request (ApiPoll token did) r))
         \<lparr>api_calls := api_calls (sleep 5 (request (ApiPoll token did) r)) @ replicate k (ApiPoll token did),
          slept := slept (sleep 5 (request (ApiPoll token did) r)) + 5 * k\<rparr>)"
    using q by (rule Suc.IH)
  finally show ?case
    by (simp add: sleep_def request_def replicate_append_same add.assoc)
qed

lemma poll_loop_forever:
  assumes "\<forall>j. pending (polls j)"
  shows "poll_loop token did polls i r = None"
proof (rule ccontr)
  assume "poll_loop token did polls i r \<noteq> None"
  then obtain y where y: "poll_loop token did polls i r = Some y" by auto
  have "\<exists>j. \<not> pending (polls j)"
  proof (rule poll_loop.raw_induct
      [where P = "\<lambda>token did polls i r y. \<exists>j. \<not> pending (polls j)", OF _ y])
    fix f token did polls i r y
    assume ih: "\<And>token did polls i r y. f token did polls i r = Some y \<Longrightarrow> \<exists>j. \<not> pending (polls j)"
      and st: "(case polls i of
        PollFails \<Rightarrow> Some (Inl RemoteApiError, request (ApiPoll token did) r)
      | PollOk networks \<Rightarrow>
          (case public_ips networks of
             Inl e \<Rightarrow> Some (Inl e, request (ApiPoll token did) r)
           | Inr [] \<Rightarrow> f token did polls (Suc i) (sleep 5 (request (ApiPoll token did) r))
           | Inr (ip # _) \<Rightarrow> Some (Inr ip, request (ApiPoll token did) r))) = Some y"
    show "\<exists>j. \<not> pending (polls j)"
    proof (cases "pending (polls i)")
      case True
      with st have "f token did polls (Suc i) (sleep 5 (request (ApiPoll token did) r)) = Some y"
        by (auto simp: pending_def split: poll_response.splits)
      then show ?thesis by (rule ih)
    next
      case False
      then show ?thesis by (rule exI)
    qed
  qed
  with assms show False by simp
qed

lemma poll_loop_exit:
  assumes "\<forall>j<k. pending (polls j)" and "\<not> pending (polls k)"
  shows "poll_loop token did polls 0 r =
           Some (poll_exit (polls k),
                 r\<lparr>api_calls := api_calls r @ replicate (Suc k) (ApiPoll token did),
                   slept := slept r + 5 * k\<rparr>)"
proof -
  have "poll_loop token did polls 0 r =
          poll_loop token did polls (0 + k)
            (r\<lparr>api_calls := api_calls r @ replicate k (ApiPoll token did), slept := slept r + 5 * k\<rparr>)"
    using assms(1) by (intro poll_loop_skip) simp
  also have "\<dots> = Some (poll_exit (polls k),
        request (ApiPoll token did)
          (r\<lparr>api_calls := api_calls r @ replicate k (ApiPoll token did), slept := slept r + 5 * k\<rparr>))"
    using assms(2) by (simp add: poll_loop_decisive)
  finally show ?thesis
    by (simp add: request_def replicate_append_same)
qed

lemma first_decisive:
  fixes polls :: "nat \<Rightarrow> poll_response"
  assumes "\<not> (\<forall>j. pending (polls j))"
  obtains k where "\<forall>j<k. pending (polls j)" and "\<not> pending (polls k)"
proof -
  from assms have "\<exists>k. \<not> pending (polls k)" by simp
  then have "\<exists>k. \<not> pending (polls k) \<and> (\<forall>j<k. \<not> \<not> pending (polls j))"
    using exists_least_iff [of "\<lambda>k. \<not> pending (polls k)"] by simp
  then show thesis using that by auto
qed

lemma poll_loop_None_iff:
  "poll_loop token did polls 0 r = None \<longleftrightarrow> (\<forall>j. pending (polls j))"
proof
  assume n: "poll_loop token did polls 0 r = None"
  show "\<forall>j. pending (polls j)"
  proof (rule ccontr)
    assume "\<not> (\<forall>j. pending (polls j))"
    then obtain k where "\<forall>j<k. pending (polls j)" and "\<not> pending (polls k)"
      by (rule first_decisive)
    then have "poll_loop token did polls 0 r \<noteq> None"
      by (simp add: poll_loop_exit)
    with n show False by simp
  qed
next
  assume "\<forall>j. pending (polls j)"
  then show "poll_loop token did polls 0 r = None" by (rule poll_loop_forever)
qed

lemma poll_exit_Inr:
  "\<not> pending p \<Longrightarrow>
   poll_exit p = Inr ip \<longleftrightarrow> (\<exists>networks rest. p = PollOk networks \<and> public_ips networks = Inr (ip # rest))"
  by (auto simp: pending_def poll_exit_def neq_Nil_conv split: poll_response.splits sum.splits)

lemma poll_exit_Inl:
  "\<not> pending p \<Longrightarrow>
   (\<exists>e. poll_exit p = Inl e) \<longleftrightarrow>
     (p = PollFails \<or> (\<exists>networks e. p = PollOk networks \<and> public_ips networks = Inl e))"
  by (auto simp: pending_def poll_exit_def split: poll_response.splits sum.splits list.splits)

lemma ready_not_pending:
  "p = PollOk networks \<Longrightarrow> public_ips networks = Inr (ip # rest) \<Longrightarrow> \<not> pending p"
  by (simp add: pending_def)

lemma failed_not_pending:
  "p = PollFails \<or> (\<exists>networks e. p = PollOk networks \<and> public_ips networks = Inl e) \<Longrightarrow> \<not> pending p"
  by (auto simp: pending_def)

lemma poll_loop_returns_iff:
  "(\<exists>r'. poll_loop token did polls 0 r = Some (Inr ip, r')) \<longleftrightarrow>
   (\<exists>k networks rest. (\<forall>j<k. pending (polls j)) \<and> polls k = PollOk networks
       \<and> public_ips networks = Inr (ip # rest))"
proof
  assume "\<exists>r'. poll_loop token did polls 0 r = Some (Inr ip, r')"
  then obtain r' where s: "poll_loop token did polls 0 r = Some (Inr ip, r')" ..
  then have "\<not> (\<forall>j. pending (polls j))"
    using poll_loop_None_iff [of token did polls r] by simp
  then obtain k where k: "\<forall>j<k. pending (polls j)" "\<not> pending (polls k)"
    by (rule first_decisive)
  with s have "poll_exit (polls k) = Inr ip"
    by (simp add: poll_loop_exit)
  with k(2) obtain networks rest where "polls k = PollOk networks" "public_ips networks = Inr (ip # rest)"
    by (auto simp: poll_exit_Inr)
  with k(1) show "\<exists>k networks rest. (\<forall>j<k. pending (polls j)) \<and> polls k = PollOk networks
       \<and> public_ips networks = Inr (ip # rest)" by blast
next
  assume "\<exists>k networks rest. (\<forall>j<k. pending (polls j)) \<and> polls k = PollOk networks
       \<and> public_ips networks = Inr (ip # rest)"
  then obtain k networks rest where k: "\<forall>j<k. pending (polls j)"
    and p: "polls k = PollOk networks" "public_ips networks = Inr (ip # rest)" by blast
  from p have n: "\<not> pending (polls k)" by (rule ready_not_pending)
  have "poll_exit (polls k) = Inr ip"
    using p by (simp add: poll_exit_def)
  then show "\<exists>r'. poll_loop token did polls 0 r = Some (Inr ip, r')"
    using poll_loop_exit [OF k n, of token did r] by simp
qed

lemma poll_loop_raises_iff:
  "(\<exists>e r'. poll_loop token did polls 0 r = Some (Inl e, r')) \<longleftrightarrow>
   (\<exists>k. (\<forall>j<k. pending (polls j))
       \<and> (polls k = PollFails \<or> (\<exists>networks e. polls k = PollOk networks \<and> public_ips networks = Inl e)))"
proof
  assume "\<exists>e r'. poll_loop token did polls 0 r = Some (Inl e, r')"
  then obtain e r' where s: "poll_loop token did polls 0 r = Some (Inl e, r')" by blast
  then have "\<not> (\<forall>j. pending (polls j))"
    using poll_loop_None_iff [of token did polls r] by simp
  then obtain k where k: "\<forall>j<k. pending (polls j)" "\<not> pending (polls k)"
    by (rule first_decisive)
  with s have "\<exists>e. poll_exit (polls k) = Inl e"
    by (simp add: poll_loop_exit)
  with k(2) have "polls k = PollFails \<or> (\<exists>networks e. polls k = PollOk networks \<and> public_ips networks = Inl e)"
    by (simp add: poll_exit_Inl)
  with k(1) show "\<exists>k. (\<forall>j<k. pending (polls j))
       \<and> (polls k = PollFails \<or> (\<exists>networks e. polls k = PollOk networks \<and> public_ips networks = Inl e))"
    by blast
next
  assume "\<exists>k. (\<forall>j<k. pending (polls j))
       \<and> (polls k = PollFails \<or> (\<exists>networks e. polls k = PollOk networks \<and> public_ips networks = Inl e))"
  then obtain k where k: "\<forall>j<k. pending (polls j)"
    and p: "polls k = PollFails \<or> (\<exists>networks e. polls k = PollOk networks \<and> public_ips networks = Inl e)"
    by blast
  from p have n: "\<not> pending (polls k)" by (rule failed_not_pending)
  with p have "\<exists>e. poll_exit (polls k) = Inl e" by (simp add: poll_exit_Inl)
  then show "\<exists>e r'. poll_loop token did polls 0 r = Some (Inl e, r')"
    using poll_loop_exit [OF k n, of token did r] by auto
qed

lemma public_ips_well_formed:
  "(\<forall>n\<in>set networks. n ''type'' \<noteq> None \<and> (n ''type'' = Some ''public'' \<longrightarrow> n ''ip_address'' \<noteq> None)) \<Longrightarrow>
   public_ips networks =
     Inr (map (\<lambda>n. the (n ''ip_address'')) (filter (\<lambda>n. n ''type'' = Some ''public'') networks))"
  by (induction networks) auto

lemma public_ips_Inr_iff:
  "public_ips networks = Inr ips \<longleftrightarrow>
     (\<forall>n\<in>set networks. n ''type'' \<noteq> None
         \<and> (n ''type'' = Some ''public'' \<longrightarrow> n ''ip_address'' \<noteq> None))
     \<and> ips = map (\<lambda>n. the (n ''ip_address''))
                 (filter (\<lambda>n. n ''type'' = Some ''public'') networks)"
proof (induction networks arbitrary: ips)
  case Nil
  show ?case by auto
next
  case (Cons n ns)
  show ?case
  proof (cases "n ''type''")
    case None
    then show ?thesis by simp
  next
    case (Some t)
    show ?thesis
    proof (cases "t = ''public''")
      case False
      with Some Cons.IH [of ips] show ?thesis by simp
    next
      case True
      show ?thesis
      proof (cases "n ''ip_address''")
        case None
        with Some True show ?thesis by simp
      next
        case (Some a)
        show ?thesis
        proof (cases "public_ips ns")
          case (Inl e)
          have "\<not> (\<forall>m\<in>set ns. m ''type'' \<noteq> None
                  \<and> (m ''type'' = Some ''public'' \<longrightarrow> m ''ip_address'' \<noteq> None))"
          proof
            assume "\<forall>m\<in>set ns. m ''type'' \<noteq> None
                  \<and> (m ''type'' = Some ''public'' \<longrightarrow> m ''ip_address'' \<noteq> None)"
            then have "public_ips ns =
                Inr (map (\<lambda>n. the (n ''ip_address''))
                       (filter (\<lambda>n. n ''type'' = Some ''public'') ns))"
              by (rule public_ips_well_formed)
            with Inl show False by simp
          qed
          with Inl Some True \<open>n ''type'' = Some t\<close> show ?thesis by simp
        next
          case (Inr tl)
          from Cons.IH [of tl] Inr have
            wf: "\<forall>m\<in>set ns. m ''type'' \<noteq> None
                  \<and> (m ''type'' = Some ''public'' \<longrightarrow> m ''ip_address'' \<noteq> None)"
            and tl: "tl = map (\<lambda>n. the (n ''ip_address''))
                       (filter (\<lambda>n. n ''type'' = Some ''public'') ns)"
            by simp_all
          from Inr Some True \<open>n ''type'' = Some t\<close> wf tl show ?thesis
            by auto
        qed
      qed
    qed
  qed
qed

lemma create_droplet_returns:
  assumes a: "read_attributes config = Inr (a, b, c, d)"
    and cr: "create_response w = CreateOk did"
    and p: "\<forall>j<k. pending (poll_response w j)"
    and n: "poll_response w k = PollOk networks"
    and i: "public_ips networks = Inr (ip # rest)"
  shows "\<exists>r2. create_droplet api_token config w r = Some (Inr (did, ip), r2)
           \<and> slept r2 = slept r + 5 * k"
proof -
  have np: "\<not> pending (poll_response w k)"
    using n i by (rule ready_not_pending)
  have e: "poll_exit (poll_response w k) = Inr ip"
    using n i by (simp add: poll_exit_def)
  let ?r1 = "say [MsgCreated did, MsgWaiting]
               (request (ApiCreate api_token a b c d) (say [MsgCreating] r))"
  let ?r2 = "?r1\<lparr>api_calls := api_calls ?r1 @ replicate (Suc k) (ApiPoll api_token did),
                 slept := slept ?r1 + 5 * k\<rparr>"
  have l: "poll_loop api_token did (poll_response w) 0 ?r1 = Some (Inr ip, ?r2)"
    using poll_loop_exit [OF p np, of api_token did ?r1] unfolding e .
  have "create_droplet api_token config w r = Some (Inr (did, ip), ?r2)"
    unfolding create_droplet_def by (simp only: a cr l Let_def sum.case prod.case
        create_response.case option.case)
  moreover have "slept ?r2 = slept r + 5 * k"
    by (simp add: say_def request_def)
  ultimately show ?thesis by (intro exI [of _ ?r2] conjI)
qed

text \<open>
  Claim C8, as amended. An answer can be read in full when it is a list in which every
  interface carries a type and every interface of kind public carries an address; its public
  addresses are then those of its public interfaces, in order, and in no other case does the
  reading give a list. An answer is pending when it can be read in full and lists no public
  interface. The loop leaves at the first answer that is not pending, after one poll request
  per turn and five seconds of sleep per pending answer. It returns exactly when some answer
  can be read in full and lists a public interface, and every answer before it was pending;
  \<^verbatim>\<open>create_droplet\<close> then returns the id of the created droplet and the first such address.
  The loop leaves with an error exactly when, after pending answers only, a poll fails or its
  answer cannot be read in full. It never leaves exactly when every answer is pending: no
  number of polls and no elapsed time ends it.
\<close>

theorem polling_loop_exits:
  "((\<forall>j<k. pending (polls j)) \<and> \<not> pending (polls k) \<longrightarrow>
      poll_loop token did polls 0 r =
        Some (poll_exit (polls k),
              r\<lparr>api_calls := api_calls r @ replicate (Suc k) (ApiPoll token did),
                slept := slept r + 5 * k\<rparr>))
   \<and> ((\<exists>r'. poll_loop token did polls 0 r = Some (Inr ip, r')) \<longleftrightarrow>
        (\<exists>k networks rest. (\<forall>j<k. pending (polls j)) \<and> polls k = PollOk networks
            \<and> public_ips networks = Inr (ip # rest)))
   \<and> ((\<exists>e r'. poll_loop token did polls 0 r = Some (Inl e, r')) \<longleftrightarrow>
        (\<exists>k. (\<forall>j<k. pending (polls j))
            \<and> (polls k = PollFails
                \<or> (\<exists>networks e. polls k = PollOk networks \<and> public_ips networks = Inl e))))
   \<and> (poll_loop token did polls 0 r = None \<longleftrightarrow> (\<forall>j. pending (polls j)))
   \<and> ((\<forall>n\<in>set networks. n ''type'' \<noteq> None
            \<and> (n ''type'' = Some ''public'' \<longrightarrow> n ''ip_address'' \<noteq> None)) \<longrightarrow>
        public_ips networks =
          Inr (map (\<lambda>n. the (n ''ip_address''))
                 (filter (\<lambda>n. n ''type'' = Some ''public'') networks)))
   \<and> (public_ips networks = Inr ips \<longleftrightarrow>
        (\<forall>n\<in>set networks. n ''type'' \<noteq> None
            \<and> (n ''type'' = Some ''public'' \<longrightarrow> n ''ip_address'' \<noteq> None))
        \<and> ips = map (\<lambda>n. the (n ''ip_address''))
                    (filter (\<lambda>n. n ''type'' = Some ''public'') networks))
   \<and> (read_attributes config = Inr (a, b, c, d) \<and> create_response w = CreateOk did
        \<and> (\<forall>j<k. pending (poll_response w j)) \<and> poll_response w k = PollOk networks
        \<and> public_ips networks = Inr (ip # rest) \<longrightarrow>
        (\<exists>r2. create_droplet token config w r = Some (Inr (did, ip), r2)
           \<and> slept r2 = slept r + 5 * k))"
proof -
  have 1: "(\<forall>j<k. pending (polls j)) \<and> \<not> pending (polls k) \<longrightarrow>
      poll_loop token did polls 0 r =
        Some (poll_exit (polls k),
              r\<lparr>api_calls := api_calls r @ replicate (Suc k) (ApiPoll token did),
                slept := slept r + 5 * k\<rparr>)"
    by (intro impI, elim conjE) (rule poll_loop_exit)
  have 5: "(\<forall>n\<in>set networks. n ''type'' \<noteq> None
            \<and> (n ''type'' = Some ''public'' \<longrightarrow> n ''ip_address'' \<noteq> None)) \<longrightarrow>
        public_ips networks =
          Inr (map (\<lambda>n. the (n ''ip_address''))
                 (filter (\<lambda>n. n ''type'' = Some ''public'') networks))"
    by (rule impI) (rule public_ips_well_formed)
  have 7: "read_attributes config = Inr (a, b, c, d) \<and> create_response w = CreateOk did
        \<and> (\<forall>j<k. pending (poll_response w j)) \<and> poll_response w k = PollOk networks
        \<and> public_ips networks = Inr (ip # rest) \<longrightarrow>
        (\<exists>r2. create_droplet token config w r = Some (Inr (did, ip), r2)
           \<and> slept r2 = slept r + 5 * k)"
    by (intro impI, elim conjE) (rule create_droplet_returns)
  show ?thesis
    by (rule conjI [OF 1 conjI [OF poll_loop_returns_iff conjI [OF poll_loop_raises_iff
          conjI [OF poll_loop_None_iff conjI [OF 5 conjI [OF public_ips_Inr_iff 7]]]]]])
qed

theorem polling_loop_exits_witness:
  "pending (poll_response sample_world 0)
   \<and> pending (poll_response sample_world 1)
   \<and> \<not> pending (poll_response sample_world 2)
   \<and> poll_loop ''secret123'' 42 (poll_response sample_world) 0 (start sample_world) =
       Some (Inr ''203.0.113.7'',
             (start sample_world)
               \<lparr>api_calls := [ApiPoll ''secret123'' 42, ApiPoll ''secret123'' 42,
                              ApiPoll ''secret123'' 42],
                slept := 10\<rparr>)
   \<and> read_attributes (droplet_config sample_listener) =
       Inr (''web-1'', ''nyc1'', ''s-1vcpu-1gb'', ''ubuntu-22-04'')
   \<and> create_response sample_world = CreateOk 42
   \<and> (\<exists>r2. create_droplet ''secret123'' (droplet_config sample_listener) sample_world
               (start sample_world) = Some (Inr (42, ''203.0.113.7''), r2)
          \<and> slept r2 = 10)"
proof -
  let ?nets = "[[''type'' \<mapsto> ''private'', ''ip_address'' \<mapsto> ''10.0.0.2''],
                [''type'' \<mapsto> ''public'', ''ip_address'' \<mapsto> ''203.0.113.7'']]"
  have p: "\<forall>j<2. pending (poll_response sample_world j)"
    by (simp add: sample_world_def pending_def)
  have n: "\<not> pending (poll_response sample_world 2)"
    by (simp add: sample_world_def pending_def)
  have e: "poll_exit (poll_response sample_world 2) = Inr ''203.0.113.7''"
    by (simp add: sample_world_def poll_exit_def)
  have "poll_loop ''secret123'' 42 (poll_response sample_world) 0 (start sample_world) =
        Some (poll_exit (poll_response sample_world 2),
              (start sample_world)
                \<lparr>api_calls := api_calls (start sample_world) @ replicate (Suc 2) (ApiPoll ''secret123'' 42),
                 slept := slept (start sample_world) + 5 * 2\<rparr>)"
    using polling_loop_exits
      [where k = 2 and polls = "poll_response sample_world" and token = "''secret123''"
         and did = 42 and r = "start sample_world"] p n
    by (simp only: simp_thms)
  then have l: "poll_loop ''secret123'' 42 (poll_response sample_world) 0 (start sample_world) =
       Some (Inr ''203.0.113.7'',
             (start sample_world)
               \<lparr>api_calls := [ApiPoll ''secret123'' 42, ApiPoll ''secret123'' 42,
                              ApiPoll ''secret123'' 42],
                slept := 10\<rparr>)"
    unfolding e by (simp add: start_def numeral_2_eq_2)
  have p0: "pending (poll_response sample_world 0)"
    by (simp add: sample_world_def pending_def)
  have p1: "pending (poll_response sample_world 1)"
    by (simp add: sample_world_def pending_def)
  have ra: "read_attributes (droplet_config sample_listener) =
       Inr (''web-1'', ''nyc1'', ''s-1vcpu-1gb'', ''ubuntu-22-04'')"
    by (simp add: read_attributes_def config_get_def sample_listener_def)
  have cr: "create_response sample_world = CreateOk 42"
    by (simp add: sample_world_def)
  have pk: "poll_response sample_world 2 = PollOk ?nets"
    by (simp add: sample_world_def)
  have pi: "public_ips ?nets = Inr (''203.0.113.7'' # [])"
    by simp
  have hyp: "read_attributes (droplet_config sample_listener) =
        Inr (''web-1'', ''nyc1'', ''s-1vcpu-1gb'', ''ubuntu-22-04'')
      \<and> create_response sample_world = CreateOk 42
      \<and> (\<forall>j<2. pending (poll_response sample_world j))
      \<and> poll_response sample_world 2 = PollOk ?nets
      \<and> public_ips ?nets = Inr (''203.0.113.7'' # [])"
    by (intro conjI ra cr p pk pi)
  have "\<exists>r2. create_droplet ''secret123'' (droplet_config sample_listener) sample_world
               (start sample_world) = Some (Inr (42, ''203.0.113.7''), r2)
          \<and> slept r2 = slept (start sample_world) + 5 * 2"
    by (rule polling_loop_exits
      [where k = 2 and token = "''secret123''" and did = 42 and r = "start sample_world"
         and config = "droplet_config sample_listener" and w = sample_world
         and networks = ?nets and ip = "''203.0.113.7''" and rest = "[]"
         and a = "''web-1''" and b = "''nyc1''" and c = "''s-1vcpu-1gb''"
         and d = "''ubuntu-22-04''",
       THEN conjunct2, THEN conjunct2, THEN conjunct2, THEN conjunct2, THEN conjunct2,
       THEN conjunct2, THEN mp, OF hyp])
  then have c: "\<exists>r2. create_droplet ''secret123'' (droplet_config sample_listener) sample_world
               (start sample_world) = Some (Inr (42, ''203.0.113.7''), r2)
          \<and> slept r2 = 10"
    by (simp add: start_def)
  show ?thesis
    by (rule conjI [OF p0 conjI [OF p1 conjI [OF n conjI [OF l conjI [OF ra conjI [OF cr c]]]]]])
qed

theorem polling_loop_counterexample:
  "poll_loop ''secret123'' 42 unreadable_polls 0 (start sample_world) =
     Some (Inl RemoteApiError,
           (start sample_world)
             \<lparr>api_calls := [ApiPoll ''secret123'' 42, ApiPoll ''secret123'' 42], slept := 5\<rparr>)"
proof -
  have "poll_loop ''secret123'' 42 unreadable_polls 0 (start sample_world) =
        Some (poll_exit (unreadable_polls 1),
              (start sample_world)
                \<lparr>api_calls := api_calls (start sample_world) @ replicate (Suc 1) (ApiPoll ''secret123'' 42),
                 slept := slept (start sample_world) + 5 * 1\<rparr>)"
    by (rule poll_loop_exit) (simp_all add: unreadable_polls_def pending_def)
  then show ?thesis
    by (simp add: start_def unreadable_polls_def poll_exit_def)
qed

section \<open>The lifecycle\<close>

lemma run_commands_keeps:
  "api_calls (snd (run_commands w cmds r)) = api_calls r \<and>
   disk (snd (run_commands w cmds r)) = disk r"
  by (induction cmds arbitrary: r) (auto simp: say_def Let_def split: proc_result.splits)

lemma run_terraform_commands_keeps:
  "api_calls (snd (run_terraform_commands w r)) = api_calls r \<and>
   disk (snd (run_terraform_commands w r)) = disk r"
  unfolding run_terraform_commands_def by (rule run_commands_keeps)

lemma cleanup_api_calls: "api_calls (cleanup fs r) = api_calls r"
  by (induction fs arbitrary: r) (simp_all add: say_def)

lemma main_gate_pass:
  "walk tree init_listener = Inr st \<Longrightarrow> resolve_token st = Inr tok \<Longrightarrow>
   droplet_config st \<noteq> Map.empty \<Longrightarrow>
   main_body act (Some tree) w r =
     (case act of
        Apply \<Rightarrow> main_apply tok st w r
      | Destroy \<Rightarrow> Some (main_destroy tok w r)
      | Plan \<Rightarrow> Some (main_plan st w r))"
  by (simp add: main_body_def)

lemma main_gate_token:
  "walk tree init_listener = Inr st \<Longrightarrow> resolve_token st = Inl e \<Longrightarrow>
   main act (Some tree) w = Some \<lparr>trace = say [MsgError e] (start w), exit_code = 1\<rparr>"
  by (simp add: main_def main_body_def)

lemma main_gate_resource:
  "walk tree init_listener = Inr st \<Longrightarrow> resolve_token st = Inr tok \<Longrightarrow>
   droplet_config st = Map.empty \<Longrightarrow>
   main act (Some tree) w = Some \<lparr>trace = say [MsgError MissingResource] (start w), exit_code = 1\<rparr>"
  by (simp add: main_def main_body_def)

lemma main_destroy_calls:
  "api_calls (snd (main_destroy tok w r)) =
     api_calls r @ (case disk r ''droplet_info.json'' of
                      Some (RecordDoc info) \<Rightarrow> [ApiDelete tok (info_id info)]
                    | _ \<Rightarrow> [])"
  by (simp add: main_destroy_def delete_droplet_api_def Let_def say_def request_def
        cleanup_api_calls
      split: option.splits document.splits delete_response.splits)

lemma main_destroy_absent:
  "disk r ''droplet_info.json'' = None \<Longrightarrow>
   main_destroy tok w r = (None, say [MsgCannotDestroy] r)"
  by (simp add: main_destroy_def)

lemma main_Destroy_pass:
  assumes "walk tree init_listener = Inr st" "resolve_token st = Inr tok"
    "droplet_config st \<noteq> Map.empty"
  shows "main Destroy (Some tree) w =
           (case main_destroy tok w (start w) of
              (None, r) \<Rightarrow> Some \<lparr>trace = r, exit_code = 0\<rparr>
            | (Some e, r) \<Rightarrow> Some \<lparr>trace = say [MsgError e] r, exit_code = 1\<rparr>)"
  by (simp add: main_def main_gate_pass [OF assms] split: prod.splits option.splits)

lemma main_Plan_pass:
  assumes "walk tree init_listener = Inr st" "resolve_token st = Inr tok"
    "droplet_config st \<noteq> Map.empty"
  shows "main Plan (Some tree) w =
           Some \<lparr>trace = snd (run_terraform_commands w
                                (say [MsgPlanMode, MsgWouldCreate (droplet_config st)] (start w))),
                 exit_code = 0\<rparr>"
  by (simp add: main_def main_gate_pass [OF assms] main_plan_def)

lemma create_droplet_id:
  "create_droplet tok config w r = Some (Inr (did, ip), r1) \<Longrightarrow> create_response w = CreateOk did"
  by (auto simp: create_droplet_def Let_def
      split: sum.splits create_response.splits option.splits prod.splits)

lemma save_statefile_other:
  "f \<noteq> filename \<Longrightarrow> disk (snd (save_statefile info filename w r)) f = disk r f"
  by (simp add: save_statefile_def say_def split: write_result.splits)

lemma save_droplet_info_json_ok:
  "write_result w filename = WriteOk \<Longrightarrow>
   disk (snd (save_droplet_info_json info filename w r)) filename = Some (RecordDoc info)"
  by (simp add: save_droplet_info_json_def say_def)

lemma main_apply_record:
  assumes ok: "main_apply tok st w r = Some (None, r')"
    and wr: "write_result w ''droplet_info.json'' = WriteOk"
  shows "\<exists>info. disk r' ''droplet_info.json'' = Some (RecordDoc info)
           \<and> create_response w = CreateOk (info_id info)"
proof -
  from ok obtain did ip r1 where c: "create_droplet tok (droplet_config st) w r = Some (Inr (did, ip), r1)"
    by (auto simp: main_apply_def split: option.splits sum.splits prod.splits)
  from ok c obtain a b c' d where ra: "read_attributes (droplet_config st) = Inr (a, b, c', d)"
    by (auto simp: main_apply_def Let_def split: sum.splits prod.splits)
  let ?info = "\<lparr>info_id = did, info_ip = ip, info_name = a, info_region = b,
                 info_size = c', info_image = d, info_created_at = clock w, info_tags = []\<rparr>"
  let ?r2 = "say [MsgAvailable ip, MsgDropletId did] r1"
  let ?r3 = "snd (save_droplet_info_json ?info ''droplet_info.json'' w ?r2)"
  let ?r4 = "snd (save_statefile ?info ''terraform.tfstate'' w ?r3)"
  have r': "r' = snd (run_terraform_commands w (say [MsgEcosystem] ?r4))"
    using ok c ra by (simp add: main_apply_def Let_def)
  have "disk r' = disk ?r4"
    unfolding r' by (simp add: run_terraform_commands_keeps say_def)
  moreover have "disk ?r4 ''droplet_info.json'' = disk ?r3 ''droplet_info.json''"
    by (rule save_statefile_other) simp
  moreover have "disk ?r3 ''droplet_info.json'' = Some (RecordDoc ?info)"
    using wr by (rule save_droplet_info_json_ok)
  ultimately have "disk r' ''droplet_info.json'' = Some (RecordDoc ?info)" by simp
  moreover have "create_response w = CreateOk (info_id ?info)"
    using create_droplet_id [OF c] by simp
  ultimately show ?thesis by (intro exI [of _ ?info] conjI)
qed

lemma main_Apply_record:
  assumes m: "main Apply src w = Some out" and x: "exit_code out = 0"
    and wr: "write_result w ''droplet_info.json'' = WriteOk"
  shows "\<exists>info. disk (trace out) ''droplet_info.json'' = Some (RecordDoc info)
           \<and> create_response w = CreateOk (info_id info)"
proof -
  from m x have b: "main_body Apply src w (start w) = Some (None, trace out)"
    by (auto simp: main_def split: option.splits prod.splits)
  then obtain tok st where "main_apply tok st w (start w) = Some (None, trace out)"
    by (auto simp: main_body_def split: option.splits sum.splits if_splits)
  then show ?thesis using wr by (rule main_apply_record)
qed

lemmas extraction_defs =
  quoted_def enterVariable_def variable_step_def enterProvider_def provider_step_def
  enterResource_def resource_step_def init_listener_def strip_quotes_def str_strip_def
  dquote_def

lemma walk_sample_tree: "walk sample_tree init_listener = Inr sample_listener"
  by (simp add: sample_tree_def sample_listener_def extraction_defs)

lemma resolve_sample_listener: "resolve_token sample_listener = Inr ''secret123''"
  by (simp add: sample_listener_def resolve_token_def str_startswith_def)

lemma config_sample_listener: "droplet_config sample_listener \<noteq> Map.empty"
  by (simp add: sample_listener_def)

lemma walk_no_resource_tree:
  "walk no_resource_tree init_listener = Inr (sample_listener\<lparr>droplet_config := Map.empty\<rparr>)"
  by (simp add: no_resource_tree_def sample_listener_def extraction_defs)

lemma walk_no_provider_tree:
  "walk no_provider_tree init_listener =
     Inr no_provider_listener"
  by (simp add: no_provider_tree_def no_provider_listener_def sample_listener_def extraction_defs)

lemma walk_literal_token_tree:
  "walk literal_token_tree init_listener =
     Inr (init_listener\<lparr>provider_token_expr := Some (quoted ''secret123''),
                         droplet_config := [''name'' \<mapsto> ''db-1'']\<rparr>)"
  by (simp add: literal_token_tree_def extraction_defs)

lemma resolve_literal_token:
  "resolve_token (init_listener\<lparr>provider_token_expr := Some (quoted ''secret123''),
                         droplet_config := [''name'' \<mapsto> ''db-1'']\<rparr>) = Inr ''secret123''"
  by (simp add: resolve_token_def str_startswith_def extraction_defs)

lemma walk_literal_token_only_tree:
  "walk literal_token_only_tree init_listener =
     Inr (init_listener\<lparr>provider_token_expr := Some (quoted ''abc123'')\<rparr>)"
  by (simp add: literal_token_only_tree_def extraction_defs)

lemma resolve_literal_token_only:
  "resolve_token (init_listener\<lparr>provider_token_expr := Some (quoted ''abc123'')\<rparr>) = Inr ''abc123''"
  by (simp add: resolve_token_def str_startswith_def extraction_defs)

text \<open>
  Claim C3, as amended. A destroy run whose file passes the checks made before the action
  is looked at (the walk does not raise, the token resolves, the resource attribute map is
  not empty), and that finds no resource record file, prints the one message that there is
  nothing to destroy, issues no request, leaves the working directory as it was and exits
  with 0.
\<close>

theorem destroy_without_record:
  "walk tree init_listener = Inr st \<Longrightarrow> resolve_token st = Inr tok \<Longrightarrow>
   droplet_config st \<noteq> Map.empty \<Longrightarrow> files w ''droplet_info.json'' = None \<Longrightarrow>
   main Destroy (Some tree) w =
     Some \<lparr>trace = \<lparr>printed = [MsgCannotDestroy], api_calls = [], disk = files w, slept = 0\<rparr>,
           exit_code = 0\<rparr>"
  by (simp add: main_Destroy_pass main_destroy_absent start_def say_def)

theorem destroy_without_record_witness:
  "walk sample_tree init_listener = Inr sample_listener
   \<and> resolve_token sample_listener = Inr ''secret123''
   \<and> droplet_config sample_listener \<noteq> Map.empty
   \<and> files sample_world ''droplet_info.json'' = None
   \<and> main Destroy (Some sample_tree) sample_world =
       Some \<lparr>trace = \<lparr>printed = [MsgCannotDestroy], api_calls = [],
                       disk = files sample_world, slept = 0\<rparr>,
             exit_code = 0\<rparr>"
proof -
  have f: "files sample_world ''droplet_info.json'' = None"
    by (simp add: sample_world_def)
  show ?thesis
    using destroy_without_record
      [OF walk_sample_tree resolve_sample_listener config_sample_listener f]
      walk_sample_tree resolve_sample_listener config_sample_listener f
    by (intro conjI)
qed

theorem destroy_without_record_counterexample:
  "files sample_world ''droplet_info.json'' = None
   \<and> main Destroy (Some literal_token_only_tree) sample_world =
       Some \<lparr>trace = (start sample_world)\<lparr>printed := [MsgError MissingResource]\<rparr>,
             exit_code = 1\<rparr>"
proof -
  have "droplet_config (init_listener\<lparr>provider_token_expr := Some (quoted ''abc123'')\<rparr>) = Map.empty"
    by (simp add: init_listener_def)
  then have "main Destroy (Some literal_token_only_tree) sample_world =
      Some \<lparr>trace = say [MsgError MissingResource] (start sample_world), exit_code = 1\<rparr>"
    by (rule main_gate_resource [OF walk_literal_token_only_tree resolve_literal_token_only])
  then show ?thesis
    by (simp add: say_def start_def sample_world_def)
qed

text \<open>
  Claim C2, as amended. The token is resolved before the action is looked at, in every
  mode. A plan run whose walk does not raise and whose resource attribute map is not empty
  fails exactly when the token does not resolve, with the error of the resolution (the
  no-token error when no token expression was stored), and exits with 1; when the token
  resolves the run exits with 0. Either way it issues no request and leaves the working
  directory as it was.
\<close>

theorem plan_needs_token:
  "walk tree init_listener = Inr st \<Longrightarrow> droplet_config st \<noteq> Map.empty \<Longrightarrow>
   (\<exists>out. main Plan (Some tree) w = Some out
      \<and> api_calls (trace out) = [] \<and> disk (trace out) = files w
      \<and> (case resolve_token st of
            Inl e \<Rightarrow> exit_code out = 1 \<and> printed (trace out) = [MsgError e]
          | Inr tok \<Rightarrow> exit_code out = 0))
   \<and> (provider_token_expr st = None \<longrightarrow> resolve_token st = Inl NoTokenSpecified)"
proof (intro conjI impI)
  assume w: "walk tree init_listener = Inr st" and c: "droplet_config st \<noteq> Map.empty"
  show "\<exists>out. main Plan (Some tree) w = Some out
      \<and> api_calls (trace out) = [] \<and> disk (trace out) = files w
      \<and> (case resolve_token st of
            Inl e \<Rightarrow> exit_code out = 1 \<and> printed (trace out) = [MsgError e]
          | Inr tok \<Rightarrow> exit_code out = 0)"
  proof (cases "resolve_token st")
    case (Inl e)
    then show ?thesis
      by (simp add: main_gate_token [OF w Inl] say_def start_def)
  next
    case (Inr tok)
    then show ?thesis
      by (simp add: main_Plan_pass [OF w Inr c] run_terraform_commands_keeps say_def start_def)
  qed
next
  assume "provider_token_expr st = None"
  then show "resolve_token st = Inl NoTokenSpecified"
    by (simp add: resolve_token_def)
qed

theorem plan_needs_token_witness:
  "walk sample_tree init_listener = Inr sample_listener
   \<and> droplet_config sample_listener \<noteq> Map.empty
   \<and> resolve_token sample_listener = Inr ''secret123''
   \<and> (\<exists>out. main Plan (Some sample_tree) sample_world = Some out
         \<and> api_calls (trace out) = [] \<and> exit_code out = 0)"
  using plan_needs_token [OF walk_sample_tree config_sample_listener, of sample_world]
    walk_sample_tree config_sample_listener resolve_sample_listener
  by (auto simp: resolve_sample_listener)

theorem plan_needs_token_counterexample:
  "droplet_config no_provider_listener ''name'' = Some ''web-1''
   \<and> walk no_provider_tree init_listener = Inr no_provider_listener
   \<and> main Plan (Some no_provider_tree) sample_world =
       Some \<lparr>trace = (start sample_world)\<lparr>printed := [MsgError NoTokenSpecified]\<rparr>,
             exit_code = 1\<rparr>"
proof -
  have r: "resolve_token no_provider_listener = Inl NoTokenSpecified"
    by (simp add: resolve_token_def no_provider_listener_def)
  have "main Plan (Some no_provider_tree) sample_world =
      Some \<lparr>trace = say [MsgError NoTokenSpecified] (start sample_world), exit_code = 1\<rparr>"
    by (rule main_gate_token [OF walk_no_provider_tree r])
  then show ?thesis
    using walk_no_provider_tree
    by (simp add: say_def start_def no_provider_listener_def sample_listener_def)
qed

lemma main_Destroy_calls:
  assumes "walk tree init_listener = Inr st" "resolve_token st = Inr tok"
    "droplet_config st \<noteq> Map.empty"
  shows "\<exists>out. main Destroy (Some tree) w = Some out
           \<and> api_calls (trace out) =
               (case files w ''droplet_info.json'' of
                  Some (RecordDoc info) \<Rightarrow> [ApiDelete tok (info_id info)]
                | _ \<Rightarrow> [])"
proof (cases "main_destroy tok w (start w)")
  case (Pair eo r)
  have c: "api_calls r =
      (case files w ''droplet_info.json'' of
         Some (RecordDoc info) \<Rightarrow> [ApiDelete tok (info_id info)]
       | _ \<Rightarrow> [])"
    using main_destroy_calls [of tok w "start w"] Pair by (simp add: start_def)
  show ?thesis
  proof (cases eo)
    case None
    with Pair c show ?thesis by (simp add: main_Destroy_pass [OF assms])
  next
    case (Some e)
    with Pair c show ?thesis by (simp add: main_Destroy_pass [OF assms] say_def)
  qed
qed

lemma main_Destroy_same_token:
  assumes "walk tree init_listener = Inr st" "resolve_token st = Inr tok"
    "droplet_config st \<noteq> Map.empty"
    and "walk tree' init_listener = Inr st'" "resolve_token st' = Inr tok"
    "droplet_config st' \<noteq> Map.empty"
  shows "main Destroy (Some tree) w = main Destroy (Some tree') w"
  by (simp only: main_Destroy_pass [OF assms(1-3)] main_Destroy_pass [OF assms(4-6)])

lemma main_gate_fails:
  assumes w: "walk tree init_listener = Inr st"
    and f: "(\<exists>e. resolve_token st = Inl e) \<or> droplet_config st = Map.empty"
  shows "\<exists>out. main act (Some tree) w = Some out \<and> exit_code out = 1
           \<and> api_calls (trace out) = [] \<and> disk (trace out) = files w"
proof (cases "resolve_token st")
  case (Inl e)
  show ?thesis by (simp add: main_gate_token [OF w Inl] say_def start_def)
next
  case (Inr tok)
  with f have "droplet_config st = Map.empty" by simp
  then show ?thesis by (simp add: main_gate_resource [OF w Inr] say_def start_def)
qed

lemma resolve_no_resource:
  "resolve_token (sample_listener\<lparr>droplet_config := Map.empty\<rparr>) = Inr ''secret123''"
  by (simp add: sample_listener_def resolve_token_def str_startswith_def)

text \<open>
  Claim C1, as amended. In destroy mode the parsed file is consulted first, by three checks
  made before the action is looked at: the walk does not raise, the token resolves, and the
  resource attribute map is not empty. When the walk raises the run prints that error alone
  and exits with 1; when the walk returns and the token does not resolve, or the resource
  attribute map is empty, the run exits with 1; in both cases it issues no request and
  leaves the working directory as it was. When the three checks pass, the persisted record
  file alone decides whether a delete request is issued (one request, for the id of the
  record, when the file holds a record; none otherwise; and exit code 0 with the directory
  untouched when there is no file), and the run depends on the parsed file only through the
  resolved token: two files that pass the checks with the same token give the same run.
\<close>

theorem destroy_gate_then_record:
  "(walk tree init_listener = Inr st \<and> resolve_token st = Inr tok
      \<and> droplet_config st \<noteq> Map.empty \<longrightarrow>
      (\<exists>out. main Destroy (Some tree) w = Some out
         \<and> api_calls (trace out) =
             (case files w ''droplet_info.json'' of
                Some (RecordDoc info) \<Rightarrow> [ApiDelete tok (info_id info)]
              | _ \<Rightarrow> [])
         \<and> (files w ''droplet_info.json'' = None \<longrightarrow>
               exit_code out = 0 \<and> disk (trace out) = files w)))
   \<and> (walk tree init_listener = Inr st \<and> resolve_token st = Inr tok
        \<and> droplet_config st \<noteq> Map.empty
        \<and> walk tree' init_listener = Inr st' \<and> resolve_token st' = Inr tok
        \<and> droplet_config st' \<noteq> Map.empty \<longrightarrow>
        main Destroy (Some tree) w = main Destroy (Some tree') w)
   \<and> (walk tree init_listener = Inr st
        \<and> ((\<exists>e. resolve_token st = Inl e) \<or> droplet_config st = Map.empty) \<longrightarrow>
        (\<exists>out. main Destroy (Some tree) w = Some out \<and> exit_code out = 1
           \<and> api_calls (trace out) = [] \<and> disk (trace out) = files w))
   \<and> (walk tree init_listener = Inl err \<longrightarrow>
        main Destroy (Some tree) w =
          Some \<lparr>trace = \<lparr>printed = [MsgError err], api_calls = [], disk = files w, slept = 0\<rparr>,
                exit_code = 1\<rparr>)"
proof (intro conjI impI)
  assume a: "walk tree init_listener = Inr st \<and> resolve_token st = Inr tok
      \<and> droplet_config st \<noteq> Map.empty"
  then have p: "walk tree init_listener = Inr st" "resolve_token st = Inr tok"
    "droplet_config st \<noteq> Map.empty" by simp_all
  from main_Destroy_calls [OF p, of w] obtain out where
    o: "main Destroy (Some tree) w = Some out"
    and c: "api_calls (trace out) =
             (case files w ''droplet_info.json'' of
                Some (RecordDoc info) \<Rightarrow> [ApiDelete tok (info_id info)]
              | _ \<Rightarrow> [])" by (elim exE conjE)
  have "files w ''droplet_info.json'' = None \<longrightarrow> exit_code out = 0 \<and> disk (trace out) = files w"
  proof
    assume "files w ''droplet_info.json'' = None"
    then have "main Destroy (Some tree) w =
       Some \<lparr>trace = say [MsgCannotDestroy] (start w), exit_code = 0\<rparr>"
      by (simp add: main_Destroy_pass [OF p] main_destroy_absent start_def)
    with o show "exit_code out = 0 \<and> disk (trace out) = files w"
      by (auto simp: say_def start_def)
  qed
  with o c show "\<exists>out. main Destroy (Some tree) w = Some out
         \<and> api_calls (trace out) =
             (case files w ''droplet_info.json'' of
                Some (RecordDoc info) \<Rightarrow> [ApiDelete tok (info_id info)]
              | _ \<Rightarrow> [])
         \<and> (files w ''droplet_info.json'' = None \<longrightarrow>
               exit_code out = 0 \<and> disk (trace out) = files w)"
    by (intro exI [of _ out] conjI)
next
  assume "walk tree init_listener = Inr st \<and> resolve_token st = Inr tok
        \<and> droplet_config st \<noteq> Map.empty
        \<and> walk tree' init_listener = Inr st' \<and> resolve_token st' = Inr tok
        \<and> droplet_config st' \<noteq> Map.empty"
  then show "main Destroy (Some tree) w = main Destroy (Some tree') w"
    by (intro main_Destroy_same_token [of tree st tok tree' st']) simp_all
next
  assume "walk tree init_listener = Inr st
        \<and> ((\<exists>e. resolve_token st = Inl e) \<or> droplet_config st = Map.empty)"
  then show "\<exists>out. main Destroy (Some tree) w = Some out \<and> exit_code out = 1
           \<and> api_calls (trace out) = [] \<and> disk (trace out) = files w"
    by (intro main_gate_fails [of tree st]) simp_all
next
  assume "walk tree init_listener = Inl err"
  then show "main Destroy (Some tree) w =
          Some \<lparr>trace = \<lparr>printed = [MsgError err], api_calls = [], disk = files w, slept = 0\<rparr>,
                exit_code = 1\<rparr>"
    by (simp add: main_walk_error say_def start_def)
qed

theorem destroy_gate_then_record_witness:
  "(walk sample_tree init_listener = Inr sample_listener
      \<and> resolve_token sample_listener = Inr ''secret123''
      \<and> droplet_config sample_listener \<noteq> Map.empty)
   \<and> (\<exists>out. main Destroy (Some sample_tree) recorded_world = Some out
         \<and> api_calls (trace out) = [ApiDelete ''secret123'' 42])
   \<and> main Destroy (Some sample_tree) recorded_world =
       main Destroy (Some literal_token_tree) recorded_world
   \<and> (walk no_provider_tree init_listener =
         Inr no_provider_listener
       \<and> ((\<exists>e. resolve_token
                  no_provider_listener = Inl e)
          \<or> droplet_config
               no_provider_listener = Map.empty))
   \<and> (\<exists>out. main Destroy (Some no_provider_tree) recorded_world = Some out
         \<and> exit_code out = 1 \<and> api_calls (trace out) = []
         \<and> disk (trace out) = files recorded_world)
   \<and> walk unsupported_provider_tree init_listener = Inl UnsupportedProvider
   \<and> main Destroy (Some unsupported_provider_tree) recorded_world =
       Some \<lparr>trace = \<lparr>printed = [MsgError UnsupportedProvider], api_calls = [],
                       disk = files recorded_world, slept = 0\<rparr>,
             exit_code = 1\<rparr>"
proof -
  let ?lit = "init_listener\<lparr>provider_token_expr := Some (quoted ''secret123''),
                           droplet_config := [''name'' \<mapsto> ''db-1'']\<rparr>"
  let ?nop = "no_provider_listener"
  have c: "droplet_config ?lit \<noteq> Map.empty"
    by simp
  have r: "\<exists>e. resolve_token ?nop = Inl e"
    by (simp add: resolve_token_def no_provider_listener_def)
  have f: "files recorded_world ''droplet_info.json'' = Some (RecordDoc sample_record)"
    by (simp add: recorded_world_def)
  have i: "info_id sample_record = 42"
    by (simp add: sample_record_def)
  have pass: "walk sample_tree init_listener = Inr sample_listener
      \<and> resolve_token sample_listener = Inr ''secret123''
      \<and> droplet_config sample_listener \<noteq> Map.empty"
    by (intro conjI walk_sample_tree resolve_sample_listener config_sample_listener)
  have both: "walk sample_tree init_listener = Inr sample_listener
      \<and> resolve_token sample_listener = Inr ''secret123''
      \<and> droplet_config sample_listener \<noteq> Map.empty
      \<and> walk literal_token_tree init_listener = Inr ?lit
      \<and> resolve_token ?lit = Inr ''secret123''
      \<and> droplet_config ?lit \<noteq> Map.empty"
    by (intro conjI walk_sample_tree resolve_sample_listener config_sample_listener
          walk_literal_token_tree resolve_literal_token c)
  have fail: "walk no_provider_tree init_listener = Inr ?nop
       \<and> ((\<exists>e. resolve_token ?nop = Inl e) \<or> droplet_config ?nop = Map.empty)"
    by (intro conjI disjI1 walk_no_provider_tree r)
  from destroy_gate_then_record
      [where tree = sample_tree and st = sample_listener and tok = "''secret123''"
         and w = recorded_world, THEN conjunct1, THEN mp, OF pass]
  obtain out where o: "main Destroy (Some sample_tree) recorded_world = Some out"
    and a: "api_calls (trace out) =
             (case files recorded_world ''droplet_info.json'' of
                Some (RecordDoc info) \<Rightarrow> [ApiDelete ''secret123'' (info_id info)]
              | _ \<Rightarrow> [])"
    by (elim exE conjE)
  from a have "api_calls (trace out) = [ApiDelete ''secret123'' 42]"
    by (simp add: f i)
  with o have 1: "\<exists>out. main Destroy (Some sample_tree) recorded_world = Some out
         \<and> api_calls (trace out) = [ApiDelete ''secret123'' 42]"
    by (intro exI [of _ out] conjI)
  have 2: "main Destroy (Some sample_tree) recorded_world =
       main Destroy (Some literal_token_tree) recorded_world"
    by (rule destroy_gate_then_record
      [where tree = sample_tree and st = sample_listener and tok = "''secret123''"
         and w = recorded_world and tree' = literal_token_tree and st' = ?lit,
       THEN conjunct2, THEN conjunct1, THEN mp, OF both])
  have 3: "\<exists>out. main Destroy (Some no_provider_tree) recorded_world = Some out
         \<and> exit_code out = 1 \<and> api_calls (trace out) = []
         \<and> disk (trace out) = files recorded_world"
    by (rule destroy_gate_then_record
      [where tree = no_provider_tree and st = ?nop and w = recorded_world,
       THEN conjunct2, THEN conjunct2, THEN conjunct1, THEN mp, OF fail])
  have u: "walk unsupported_provider_tree init_listener = Inl UnsupportedProvider"
    by (simp add: unsupported_provider_tree_def extraction_defs)
  have 4: "main Destroy (Some unsupported_provider_tree) recorded_world =
       Some \<lparr>trace = \<lparr>printed = [MsgError UnsupportedProvider], api_calls = [],
                       disk = files recorded_world, slept = 0\<rparr>,
             exit_code = 1\<rparr>"
    by (rule destroy_gate_then_record
      [where tree = unsupported_provider_tree and err = UnsupportedProvider
         and w = recorded_world,
       THEN conjunct2, THEN conjunct2, THEN conjunct2, THEN mp, OF u])
  show ?thesis
    by (rule conjI [OF pass conjI [OF 1 conjI [OF 2 conjI [OF fail conjI [OF 3 conjI [OF u 4]]]]]])
qed

theorem destroy_gate_then_record_counterexample:
  "files recorded_world ''droplet_info.json'' = Some (RecordDoc sample_record)
   \<and> main Destroy (Some no_resource_tree) recorded_world =
       Some \<lparr>trace = (start recorded_world)\<lparr>printed := [MsgError MissingResource]\<rparr>,
             exit_code = 1\<rparr>"
proof -
  have "droplet_config (sample_listener\<lparr>droplet_config := Map.empty\<rparr>) = Map.empty"
    by simp
  then have "main Destroy (Some no_resource_tree) recorded_world =
      Some \<lparr>trace = say [MsgError MissingResource] (start recorded_world), exit_code = 1\<rparr>"
    by (rule main_gate_resource [OF walk_no_resource_tree resolve_no_resource])
  then show ?thesis
    by (simp add: say_def start_def recorded_world_def)
qed

text \<open>
  Claim C9. Let an apply run end with exit code 0 in a world where the write of the
  resource record succeeds. Then the working directory it leaves holds a record whose id
  is the id that the create request returned; and a destroy run on that directory, with any
  file that passes the checks, issues exactly one request: the delete of that same id.
\<close>

theorem record_round_trip:
  "main Apply src w = Some out \<Longrightarrow> exit_code out = 0 \<Longrightarrow>
   write_result w ''droplet_info.json'' = WriteOk \<Longrightarrow>
   files w' = disk (trace out) \<Longrightarrow>
   walk tree' init_listener = Inr st' \<Longrightarrow> resolve_token st' = Inr tok' \<Longrightarrow>
   droplet_config st' \<noteq> Map.empty \<Longrightarrow>
   \<exists>info out'. disk (trace out) ''droplet_info.json'' = Some (RecordDoc info)
      \<and> create_response w = CreateOk (info_id info)
      \<and> main Destroy (Some tree') w' = Some out'
      \<and> api_calls (trace out') = [ApiDelete tok' (info_id info)]"
proof -
  assume m: "main Apply src w = Some out" and x: "exit_code out = 0"
    and wr: "write_result w ''droplet_info.json'' = WriteOk"
    and f: "files w' = disk (trace out)"
    and p: "walk tree' init_listener = Inr st'" "resolve_token st' = Inr tok'"
      "droplet_config st' \<noteq> Map.empty"
  from main_Apply_record [OF m x wr] obtain info where
    d: "disk (trace out) ''droplet_info.json'' = Some (RecordDoc info)"
    and c: "create_response w = CreateOk (info_id info)" by (elim exE conjE)
  from main_Destroy_calls [OF p, of w'] obtain out' where
    o: "main Destroy (Some tree') w' = Some out'"
    and a: "api_calls (trace out') =
             (case files w' ''droplet_info.json'' of
                Some (RecordDoc info) \<Rightarrow> [ApiDelete tok' (info_id info)]
              | _ \<Rightarrow> [])" by (elim exE conjE)
  from a f d have "api_calls (trace out') = [ApiDelete tok' (info_id info)]" by simp
  with d c o show ?thesis by (intro exI [of _ info] exI [of _ out'] conjI)
qed

lemma sample_poll_loop:
  "poll_loop token did (poll_response sample_world) 0 r =
     Some (Inr ''203.0.113.7'',
           r\<lparr>api_calls := api_calls r @ replicate (Suc 2) (ApiPoll token did),
             slept := slept r + 5 * 2\<rparr>)"
proof -
  have p: "\<forall>j<2. pending (poll_response sample_world j)"
    by (simp add: sample_world_def pending_def)
  have n: "\<not> pending (poll_response sample_world 2)"
    by (simp add: sample_world_def pending_def)
  have e: "poll_exit (poll_response sample_world 2) = Inr ''203.0.113.7''"
    by (simp add: sample_world_def poll_exit_def)
  show ?thesis
    using poll_loop_exit [OF p n, of token did r] unfolding e .
qed

lemma sample_read_attributes:
  "read_attributes (droplet_config sample_listener) =
     Inr (''web-1'', ''nyc1'', ''s-1vcpu-1gb'', ''ubuntu-22-04'')"
  by (simp add: read_attributes_def config_get_def sample_listener_def)

lemma sample_create_droplet:
  "\<exists>r1. create_droplet ''secret123'' (droplet_config sample_listener) sample_world r =
          Some (Inr (42, ''203.0.113.7''), r1)"
proof -
  have c: "create_response sample_world = CreateOk 42"
    by (simp add: sample_world_def)
  show ?thesis
    by (simp add: create_droplet_def sample_read_attributes c sample_poll_loop Let_def)
qed

lemma sample_main_apply:
  "\<exists>r'. main_apply ''secret123'' sample_listener sample_world r = Some (None, r')"
proof -
  from sample_create_droplet [of r] obtain r1 where
    "create_droplet ''secret123'' (droplet_config sample_listener) sample_world r =
          Some (Inr (42, ''203.0.113.7''), r1)" ..
  then show ?thesis
    by (simp add: main_apply_def sample_read_attributes Let_def)
qed

lemma sample_main_Apply:
  "\<exists>out. main Apply (Some sample_tree) sample_world = Some out \<and> exit_code out = 0"
proof -
  from sample_main_apply [of "start sample_world"] obtain r' where
    "main_apply ''secret123'' sample_listener sample_world (start sample_world) = Some (None, r')" ..
  then show ?thesis
    by (simp add: main_def
          main_gate_pass [OF walk_sample_tree resolve_sample_listener config_sample_listener])
qed

theorem record_round_trip_witness:
  "\<exists>out. main Apply (Some sample_tree) sample_world = Some out \<and> exit_code out = 0
     \<and> write_result sample_world ''droplet_info.json'' = WriteOk
     \<and> files (sample_world\<lparr>files := disk (trace out)\<rparr>) = disk (trace out)
     \<and> walk literal_token_tree init_listener =
         Inr (init_listener\<lparr>provider_token_expr := Some (quoted ''secret123''),
                             droplet_config := [''name'' \<mapsto> ''db-1'']\<rparr>)
     \<and> (\<exists>info out'. disk (trace out) ''droplet_info.json'' = Some (RecordDoc info)
           \<and> info_id info = 42
           \<and> main Destroy (Some literal_token_tree) (sample_world\<lparr>files := disk (trace out)\<rparr>)
               = Some out'
           \<and> api_calls (trace out') = [ApiDelete ''secret123'' 42])"
proof -
  let ?lit = "init_listener\<lparr>provider_token_expr := Some (quoted ''secret123''),
                           droplet_config := [''name'' \<mapsto> ''db-1'']\<rparr>"
  from sample_main_Apply obtain out where
    m: "main Apply (Some sample_tree) sample_world = Some out" and x: "exit_code out = 0"
    by (elim exE conjE)
  have wr: "write_result sample_world ''droplet_info.json'' = WriteOk"
    by (simp add: sample_world_def)
  have f: "files (sample_world\<lparr>files := disk (trace out)\<rparr>) = disk (trace out)"
    by simp
  have c: "droplet_config ?lit \<noteq> Map.empty"
    by simp
  have cr: "create_response sample_world = CreateOk 42"
    by (simp add: sample_world_def)
  from record_round_trip
    [OF m x wr f walk_literal_token_tree resolve_literal_token c]
  obtain info out' where d: "disk (trace out) ''droplet_info.json'' = Some (RecordDoc info)"
    and i: "create_response sample_world = CreateOk (info_id info)"
    and o: "main Destroy (Some literal_token_tree) (sample_world\<lparr>files := disk (trace out)\<rparr>)
               = Some out'"
    and a: "api_calls (trace out') = [ApiDelete ''secret123'' (info_id info)]"
    by (elim exE conjE)
  from i cr have i42: "info_id info = 42" by simp
  from a i42 have a42: "api_calls (trace out') = [ApiDelete ''secret123'' 42]" by simp
  have "\<exists>info out'. disk (trace out) ''droplet_info.json'' = Some (RecordDoc info)
           \<and> info_id info = 42
           \<and> main Destroy (Some literal_token_tree) (sample_world\<lparr>files := disk (trace out)\<rparr>)
               = Some out'
           \<and> api_calls (trace out') = [ApiDelete ''secret123'' 42]"
    using d i42 o a42 by (intro exI [of _ info] exI [of _ out'] conjI)
  with m x wr f walk_literal_token_tree show ?thesis
    by (intro exI [of _ out] conjI)
qed

end
